theory Spec2Isabelle
  imports Main "HOL-Library.Multiset"
begin

section \<open>Input records\<close>

text \<open>
  The three input collections are lists of JSON objects.  A key that the code reads with
  \<^verbatim>\<open>d["k"]\<close> is a plain field; a key that it reads with \<^verbatim>\<open>d.get("k")\<close> is an optional
  field (\<open>None\<close> when the key is absent or null).  Identifiers and names are strings.
  A timestamp field holds the value that \<^verbatim>\<open>datetime.fromisoformat\<close> returns for the
  ISO-8601 text of the input format, as a point on a linear time axis.  The code raises
  nothing of its own: a run fails only when a required key is missing or a timestamp is
  not ISO-8601 text, and such an input has no record of these types.
\<close>

type_synonym datetime = int

record ticket =
  tk_id :: string
  tk_summary :: string
  tk_status :: string
  tk_assignee :: "string option"
  tk_created_at :: datetime
  tk_updated_at :: datetime
  tk_resolution :: "string option"

record commit =
  cm_commit_id :: string
  cm_author :: "string option"
  cm_ticket :: "string option"
  cm_message :: "string option"
  cm_timestamp :: datetime

record email =
  em_thread_id :: string
  em_sender :: "string option"
  em_recipients :: "string list option"
  em_subject :: string
  em_body :: string
  em_timestamp :: datetime

datatype event_data = TicketData ticket | CommitData commit | EmailData email

record event =
  ev_type :: string
  ev_id :: string
  ev_timestamp :: datetime
  ev_data :: event_data

section \<open>Python primitives used by the code\<close>

text \<open>Truthiness of \<^verbatim>\<open>d.get("k")\<close> for a string value: absent, null and the empty string are false.\<close>

fun truthy :: "string option \<Rightarrow> bool" where
  "truthy None = False"
| "truthy (Some s) = (s \<noteq> [])"

text \<open>
  A \<^verbatim>\<open>defaultdict\<close> keeps its keys in insertion order: an association list with distinct
  keys.  \<open>dd_update k dflt f d\<close> is \<^verbatim>\<open>d[k] = f(d[k])\<close>: an absent key is first created with
  the default value, at the end.
\<close>

fun dd_update :: "'k \<Rightarrow> 'v \<Rightarrow> ('v \<Rightarrow> 'v) \<Rightarrow> ('k \<times> 'v) list \<Rightarrow> ('k \<times> 'v) list" where
  "dd_update k dflt f [] = [(k, f dflt)]"
| "dd_update k dflt f ((k', v) # d) =
     (if k = k' then (k', f v) # d else (k', v) # dd_update k dflt f d)"

text \<open>Reading \<^verbatim>\<open>d[k]\<close> without creating the key: the default stands for an absent key.\<close>

definition dd_get :: "'v \<Rightarrow> ('k \<times> 'v) list \<Rightarrow> 'k \<Rightarrow> 'v" where
  "dd_get dflt d k = (case map_of d k of None \<Rightarrow> dflt | Some v \<Rightarrow> v)"

text \<open>\<^verbatim>\<open>xs.sort(key=f)\<close> and \<^verbatim>\<open>xs.sort(key=f, reverse=True)\<close>: both are stable.\<close>

definition py_sort :: "('a \<Rightarrow> int) \<Rightarrow> 'a list \<Rightarrow> 'a list" where
  "py_sort f xs = sort_key f xs"

definition py_sort_reverse :: "('a \<Rightarrow> int) \<Rightarrow> 'a list \<Rightarrow> 'a list" where
  "py_sort_reverse f xs = sort_key (\<lambda>x. - f x) xs"

subsection \<open>The regular expressions\<close>

text \<open>Characters are ASCII: \<^verbatim>\<open>\d\<close> is \<open>0\<close>-\<open>9\<close> and \<^verbatim>\<open>\w\<close> is a letter, a digit or \<open>_\<close>.\<close>

definition is_digit :: "char \<Rightarrow> bool" where
  "is_digit c = (c \<in> set ''0123456789'')"

definition is_hex :: "char \<Rightarrow> bool" where
  "is_hex c = (c \<in> set ''0123456789abcdef'')"

definition is_word :: "char \<Rightarrow> bool" where
  "is_word c =
     (c \<in> set ''abcdefghijklmnopqrstuvwxyzABCDEFGHIJKLMNOPQRSTUVWXYZ0123456789_'')"

text \<open>\<^verbatim>\<open>PROJ-\d+\<close> matched at the start of \<open>s\<close>; the digits are taken greedily.\<close>

definition match_task :: "string \<Rightarrow> string option" where
  "match_task s =
     (let ds = takeWhile is_digit (drop 5 s)
      in if take 5 s = ''PROJ-'' \<and> ds \<noteq> [] then Some (''PROJ-'' @ ds) else None)"

text \<open>\<^verbatim>\<open>re.findall(r'PROJ-\d+', s)\<close>: leftmost matches, the scan resuming after each match.\<close>

function findall_task :: "string \<Rightarrow> string list" where
  "findall_task [] = []"
| "findall_task (c # cs) =
     (case match_task (c # cs) of
        Some tok \<Rightarrow> tok # findall_task (drop (length tok) (c # cs))
      | None \<Rightarrow> findall_task cs)"
  by pat_completeness auto
termination
  by (relation "measure length") (auto simp: match_task_def Let_def split: if_splits)

text \<open>Exactly \<open>n\<close> characters of \<^verbatim>\<open>[0-9a-f]\<close>, then the rest; and one \<open>-\<close>, then the rest.\<close>

fun hexes :: "nat \<Rightarrow> string \<Rightarrow> string option" where
  "hexes 0 s = Some s"
| "hexes (Suc n) [] = None"
| "hexes (Suc n) (c # cs) = (if is_hex c then hexes n cs else None)"

fun dash :: "string \<Rightarrow> string option" where
  "dash [] = None"
| "dash (c # cs) = (if c = CHR ''-'' then Some cs else None)"

text \<open>\<^verbatim>\<open>[0-9a-f]{8}-[0-9a-f]{4}-[0-9a-f]{4}-[0-9a-f]{4}-[0-9a-f]{12}\<close> at the start of \<open>s\<close>.\<close>

definition match_uuid :: "string \<Rightarrow> string option" where
  "match_uuid s =
     (case Option.bind (Option.bind (Option.bind (Option.bind (Option.bind (Option.bind
            (Option.bind (Option.bind (hexes 8 s) dash) (hexes 4)) dash) (hexes 4)) dash)
            (hexes 4)) dash) (hexes 12) of
        Some _ \<Rightarrow> Some (take 36 s)
      | None \<Rightarrow> None)"

function findall_uuid :: "string \<Rightarrow> string list" where
  "findall_uuid [] = []"
| "findall_uuid (c # cs) =
     (case match_uuid (c # cs) of
        Some tok \<Rightarrow> tok # findall_uuid (drop 36 (c # cs))
      | None \<Rightarrow> findall_uuid cs)"
  by pat_completeness auto
termination
  by (relation "measure length") auto

section \<open>cluster\_task\_data\<close>

text \<open>The value type of the \<^verbatim>\<open>task_clusters\<close> dictionary, and its default.\<close>

record task_cluster =
  jira :: "ticket option"
  git_commits :: "commit list"
  emails :: "email list"
  timeline :: "event list"

definition default_task_cluster :: task_cluster where
  "default_task_cluster = \<lparr>jira = None, git_commits = [], emails = [], timeline = []\<rparr>"

type_synonym task_clusters = "(string \<times> task_cluster) list"

definition jira_event :: "ticket \<Rightarrow> event" where
  "jira_event t =
     \<lparr>ev_type = ''jira'', ev_id = tk_id t, ev_timestamp = tk_created_at t,
      ev_data = TicketData t\<rparr>"

definition git_event :: "commit \<Rightarrow> event" where
  "git_event c =
     \<lparr>ev_type = ''git'', ev_id = cm_commit_id c, ev_timestamp = cm_timestamp c,
      ev_data = CommitData c\<rparr>"

definition email_event :: "email \<Rightarrow> event" where
  "email_event e =
     \<lparr>ev_type = ''email'', ev_id = em_thread_id e, ev_timestamp = em_timestamp e,
      ev_data = EmailData e\<rparr>"

text \<open>Step 2, the body of the loop over tickets.\<close>

definition process_ticket :: "ticket \<Rightarrow> task_clusters \<Rightarrow> task_clusters" where
  "process_ticket t d =
     dd_update (tk_id t) default_task_cluster
       (\<lambda>cl. cl\<lparr>jira := Some t, timeline := timeline cl @ [jira_event t]\<rparr>) d"

text \<open>Step 3, the body of the loop over commits.\<close>

definition process_commit :: "commit \<Rightarrow> task_clusters \<Rightarrow> task_clusters" where
  "process_commit c d =
     (if truthy (cm_ticket c)
      then dd_update (the (cm_ticket c)) default_task_cluster
             (\<lambda>cl. cl\<lparr>git_commits := git_commits cl @ [c],
                       timeline := timeline cl @ [git_event c]\<rparr>) d
      else d)"

text \<open>Appending an email and its timeline event to one cluster.\<close>

definition attach_email :: "email \<Rightarrow> task_cluster \<Rightarrow> task_cluster" where
  "attach_email e cl = cl\<lparr>emails := emails cl @ [e], timeline := timeline cl @ [email_event e]\<rparr>"

text \<open>Step 4, the direct path: the body of the loop over \<^verbatim>\<open>task_ids\<close>.\<close>

definition attach_direct :: "email \<Rightarrow> string \<Rightarrow> task_clusters \<Rightarrow> task_clusters" where
  "attach_direct e task_id d =
     (if task_id \<in> set (map fst d)
      then dd_update task_id default_task_cluster (attach_email e) d
      else d)"

text \<open>Step 4, the fallback: the body of the loop over \<^verbatim>\<open>commit_ids\<close>, which visits every cluster.\<close>

definition attach_by_commit :: "email \<Rightarrow> string \<Rightarrow> task_clusters \<Rightarrow> task_clusters" where
  "attach_by_commit e commit_id d =
     map (\<lambda>(task_id, cl).
            if \<exists>c \<in> set (git_commits cl). cm_commit_id c = commit_id
            then (if e \<notin> set (emails cl) then (task_id, attach_email e cl) else (task_id, cl))
            else (task_id, cl)) d"

text \<open>
  Step 4, the body of the loop over emails.  \<^verbatim>\<open>task_ids\<close> is a Python set: each distinct
  token once.  The order in which Python visits the set does not change the result
  (lemma \<open>direct_path_order_irrelevant\<close>).
\<close>

definition email_task_ids :: "email \<Rightarrow> string list" where
  "email_task_ids e = remdups (findall_task (em_subject e @ em_body e))"

definition email_commit_ids :: "email \<Rightarrow> string list" where
  "email_commit_ids e = findall_uuid (em_body e)"

definition process_email :: "email \<Rightarrow> task_clusters \<Rightarrow> task_clusters" where
  "process_email e d =
     (let task_ids = email_task_ids e;
          commit_ids = email_commit_ids e;
          d1 = fold (attach_direct e) task_ids d
      in if task_ids = [] then fold (attach_by_commit e) commit_ids d1 else d1)"

text \<open>The dictionary after steps 2 to 4, before any timeline is sorted.\<close>

definition task_clusters_built :: "ticket list \<Rightarrow> commit list \<Rightarrow> email list \<Rightarrow> task_clusters" where
  "task_clusters_built jira_data git_data email_data =
     fold process_email email_data
       (fold process_commit git_data
          (fold process_ticket jira_data []))"

text \<open>Step 5.\<close>

definition sort_task_timelines :: "task_clusters \<Rightarrow> task_clusters" where
  "sort_task_timelines d =
     map (\<lambda>(task_id, cl). (task_id, cl\<lparr>timeline := py_sort ev_timestamp (timeline cl)\<rparr>)) d"

text \<open>Step 6: the output dictionaries; a cluster without a ticket is skipped.\<close>

record task_result =
  task_id :: string
  summary :: string
  status :: string
  assignee :: "string option"
  created_at :: datetime
  r_git_commits :: "commit list"
  r_emails :: "email list"
  r_timeline :: "event list"

definition task_result_of :: "string \<Rightarrow> ticket \<Rightarrow> task_cluster \<Rightarrow> task_result" where
  "task_result_of k t cl =
     \<lparr>task_id = k, summary = tk_summary t, status = tk_status t,
      assignee = tk_assignee t, created_at = tk_created_at t,
      r_git_commits = git_commits cl, r_emails = emails cl,
      r_timeline = timeline cl\<rparr>"

fun final_task_clusters :: "task_clusters \<Rightarrow> task_result list" where
  "final_task_clusters [] = []"
| "final_task_clusters ((k, cl) # d) =
     (case jira cl of
        None \<Rightarrow> final_task_clusters d
      | Some t \<Rightarrow> task_result_of k t cl # final_task_clusters d)"

definition cluster_task_data :: "ticket list \<Rightarrow> commit list \<Rightarrow> email list \<Rightarrow> task_result list" where
  "cluster_task_data jira_data git_data email_data =
     final_task_clusters (sort_task_timelines (task_clusters_built jira_data git_data email_data))"

section \<open>cluster\_employee\_data\<close>

text \<open>
  \<^verbatim>\<open>re.search(r"Resolved by (\w+)", s).group(1)\<close>: the word after the leftmost
  \<open>Resolved by\<close> that is followed by a word character; \<open>None\<close> when there is no match.
\<close>

definition match_resolver :: "string \<Rightarrow> string option" where
  "match_resolver s =
     (let w = takeWhile is_word (drop 12 s)
      in if take 12 s = ''Resolved by '' \<and> w \<noteq> [] then Some w else None)"

fun search_resolver :: "string \<Rightarrow> string option" where
  "search_resolver [] = None"
| "search_resolver (c # cs) =
     (case match_resolver (c # cs) of Some w \<Rightarrow> Some w | None \<Rightarrow> search_resolver cs)"

record employee_cluster =
  jira_assigned :: "ticket list"
  jira_resolved :: "ticket list"
  e_git_commits :: "commit list"
  emails_sent :: "email list"
  emails_received :: "email list"
  e_timeline :: "event list"

definition default_employee_cluster :: employee_cluster where
  "default_employee_cluster =
     \<lparr>jira_assigned = [], jira_resolved = [], e_git_commits = [], emails_sent = [],
      emails_received = [], e_timeline = []\<rparr>"

type_synonym employee_clusters = "(string \<times> employee_cluster) list"

definition employee_event :: "string \<Rightarrow> string \<Rightarrow> datetime \<Rightarrow> event_data \<Rightarrow> event" where
  "employee_event ty i ts d = \<lparr>ev_type = ty, ev_id = i, ev_timestamp = ts, ev_data = d\<rparr>"

text \<open>Step 2, the body of the loop over tickets: the assignee, then the resolver.\<close>

definition employee_ticket_assignee :: "ticket \<Rightarrow> employee_clusters \<Rightarrow> employee_clusters" where
  "employee_ticket_assignee t d =
     (if truthy (tk_assignee t)
      then dd_update (the (tk_assignee t)) default_employee_cluster
             (\<lambda>cl. cl\<lparr>jira_assigned := jira_assigned cl @ [t],
                       e_timeline := e_timeline cl @
                         [employee_event ''jira_assigned'' (tk_id t) (tk_created_at t)
                            (TicketData t)]\<rparr>) d
      else d)"

definition employee_ticket_resolver :: "ticket \<Rightarrow> employee_clusters \<Rightarrow> employee_clusters" where
  "employee_ticket_resolver t d =
     (if truthy (tk_resolution t)
      then (case search_resolver (the (tk_resolution t)) of
              None \<Rightarrow> d
            | Some resolver \<Rightarrow>
                dd_update resolver default_employee_cluster
                  (\<lambda>cl. cl\<lparr>jira_resolved := jira_resolved cl @ [t],
                            e_timeline := e_timeline cl @
                              [employee_event ''jira_resolved'' (tk_id t) (tk_updated_at t)
                                 (TicketData t)]\<rparr>) d)
      else d)"

definition employee_ticket :: "ticket \<Rightarrow> employee_clusters \<Rightarrow> employee_clusters" where
  "employee_ticket t d = employee_ticket_resolver t (employee_ticket_assignee t d)"

text \<open>Step 3, the body of the loop over commits.\<close>

definition employee_commit :: "commit \<Rightarrow> employee_clusters \<Rightarrow> employee_clusters" where
  "employee_commit c d =
     (if truthy (cm_author c)
      then dd_update (the (cm_author c)) default_employee_cluster
             (\<lambda>cl. cl\<lparr>e_git_commits := e_git_commits cl @ [c],
                       e_timeline := e_timeline cl @
                         [employee_event ''git_commit'' (cm_commit_id c) (cm_timestamp c)
                            (CommitData c)]\<rparr>) d
      else d)"

text \<open>Step 4, the body of the loop over emails: the sender, then every recipient.\<close>

definition employee_email_sender :: "email \<Rightarrow> employee_clusters \<Rightarrow> employee_clusters" where
  "employee_email_sender e d =
     (if truthy (em_sender e)
      then dd_update (the (em_sender e)) default_employee_cluster
             (\<lambda>cl. cl\<lparr>emails_sent := emails_sent cl @ [e],
                       e_timeline := e_timeline cl @
                         [employee_event ''email_sent'' (em_thread_id e) (em_timestamp e)
                            (EmailData e)]\<rparr>) d
      else d)"

definition employee_email_recipient ::
  "email \<Rightarrow> string \<Rightarrow> employee_clusters \<Rightarrow> employee_clusters" where
  "employee_email_recipient e recipient d =
     dd_update recipient default_employee_cluster
       (\<lambda>cl. cl\<lparr>emails_received := emails_received cl @ [e],
                 e_timeline := e_timeline cl @
                   [employee_event ''email_received'' (em_thread_id e) (em_timestamp e)
                      (EmailData e)]\<rparr>) d"

text \<open>\<^verbatim>\<open>email.get("recipients", [])\<close>.\<close>

definition recipients_of :: "email \<Rightarrow> string list" where
  "recipients_of e = (case em_recipients e of None \<Rightarrow> [] | Some rs \<Rightarrow> rs)"

definition employee_email :: "email \<Rightarrow> employee_clusters \<Rightarrow> employee_clusters" where
  "employee_email e d =
     fold (employee_email_recipient e) (recipients_of e) (employee_email_sender e d)"

text \<open>The dictionary after steps 2 to 4, before any timeline is sorted.\<close>

definition employee_clusters_built ::
  "ticket list \<Rightarrow> commit list \<Rightarrow> email list \<Rightarrow> employee_clusters" where
  "employee_clusters_built jira_data git_data email_data =
     fold employee_email email_data
       (fold employee_commit git_data
          (fold employee_ticket jira_data []))"

text \<open>Step 5.\<close>

definition sort_employee_timelines :: "employee_clusters \<Rightarrow> employee_clusters" where
  "sort_employee_timelines d =
     map (\<lambda>(employee, cl). (employee, cl\<lparr>e_timeline := py_sort ev_timestamp (e_timeline cl)\<rparr>)) d"

text \<open>Step 6: the output dictionaries, whose counts are list lengths.\<close>

record activity_summary =
  jira_tickets_assigned :: nat
  jira_tickets_resolved :: nat
  s_git_commits :: nat
  s_emails_sent :: nat
  s_emails_received :: nat
  total_activity_count :: nat

record employee_result =
  employee :: string
  activity_summary :: activity_summary
  p_jira_assigned :: "ticket list"
  p_jira_resolved :: "ticket list"
  p_git_commits :: "commit list"
  p_emails_sent :: "email list"
  p_emails_received :: "email list"
  p_timeline :: "event list"

definition employee_result_of :: "string \<Rightarrow> employee_cluster \<Rightarrow> employee_result" where
  "employee_result_of name cl =
     (let total_jira = length (jira_assigned cl) + length (jira_resolved cl);
          total_commits = length (e_git_commits cl);
          total_emails = length (emails_sent cl) + length (emails_received cl)
      in \<lparr>employee = name,
          activity_summary =
            \<lparr>jira_tickets_assigned = length (jira_assigned cl),
             jira_tickets_resolved = length (jira_resolved cl),
             s_git_commits = total_commits,
             s_emails_sent = length (emails_sent cl),
             s_emails_received = length (emails_received cl),
             total_activity_count = total_jira + total_commits + total_emails\<rparr>,
          p_jira_assigned = jira_assigned cl,
          p_jira_resolved = jira_resolved cl,
          p_git_commits = e_git_commits cl,
          p_emails_sent = emails_sent cl,
          p_emails_received = emails_received cl,
          p_timeline = e_timeline cl\<rparr>)"

fun final_employee_clusters :: "employee_clusters \<Rightarrow> employee_result list" where
  "final_employee_clusters [] = []"
| "final_employee_clusters ((name, cl) # d) =
     (if \<not> (jira_assigned cl \<noteq> [] \<or> jira_resolved cl \<noteq> [] \<or> e_git_commits cl \<noteq> [] \<or>
             emails_sent cl \<noteq> [] \<or> emails_received cl \<noteq> [])
      then final_employee_clusters d
      else employee_result_of name cl # final_employee_clusters d)"

text \<open>The list \<^verbatim>\<open>final_clusters\<close> before the last sort, in the order the employees were met.\<close>

definition employee_clusters_unsorted ::
  "ticket list \<Rightarrow> commit list \<Rightarrow> email list \<Rightarrow> employee_result list" where
  "employee_clusters_unsorted jira_data git_data email_data =
     final_employee_clusters
       (sort_employee_timelines (employee_clusters_built jira_data git_data email_data))"

definition total_activity :: "employee_result \<Rightarrow> int" where
  "total_activity x = int (total_activity_count (activity_summary x))"

definition cluster_employee_data ::
  "ticket list \<Rightarrow> commit list \<Rightarrow> email list \<Rightarrow> employee_result list" where
  "cluster_employee_data jira_data git_data email_data =
     py_sort_reverse total_activity (employee_clusters_unsorted jira_data git_data email_data)"

section \<open>analyze\_employee\_clusters\<close>

record stats =
  total_employees :: nat
  total_jira_tickets_assigned :: nat
  total_jira_tickets_resolved :: nat
  total_git_commits :: nat
  total_emails_sent :: nat
  total_emails_received :: nat
  potential_developers :: "string list"
  potential_managers :: "string list"
  potential_communicators :: "string list"
  top_code_contributors :: "string list"
  top_issue_resolvers :: "string list"

text \<open>
  The body of the categorisation loop, on the three lists
  (\<^verbatim>\<open>developers\<close>, \<^verbatim>\<open>managers\<close>, \<^verbatim>\<open>communicators\<close>).
\<close>

definition categorize ::
  "employee_result \<Rightarrow> string list \<times> string list \<times> string list
     \<Rightarrow> string list \<times> string list \<times> string list" where
  "categorize e acc =
     (case acc of (developers, managers, communicators) \<Rightarrow>
        let s = activity_summary e
        in if s_git_commits s > s_emails_sent s + s_emails_received s
           then (developers @ [employee e], managers, communicators)
           else if s_emails_sent s > s_git_commits s * 2
           then (developers,
                 (if jira_tickets_assigned s > 0 \<and> s_git_commits s = 0
                  then managers @ [employee e] else managers),
                 communicators @ [employee e])
           else (developers, managers, communicators))"

definition analyze_employee_clusters :: "employee_result list \<Rightarrow> stats" where
  "analyze_employee_clusters employee_clusters =
     (case fold categorize employee_clusters ([], [], []) of
        (developers, managers, communicators) \<Rightarrow>
          let top_by_commits =
                take 3 (py_sort_reverse (\<lambda>e. int (s_git_commits (activity_summary e)))
                          employee_clusters);
              top_by_jira =
                take 3 (py_sort_reverse (\<lambda>e. int (jira_tickets_resolved (activity_summary e)))
                          employee_clusters)
          in \<lparr>total_employees = length employee_clusters,
              total_jira_tickets_assigned =
                sum_list (map (\<lambda>e. jira_tickets_assigned (activity_summary e)) employee_clusters),
              total_jira_tickets_resolved =
                sum_list (map (\<lambda>e. jira_tickets_resolved (activity_summary e)) employee_clusters),
              total_git_commits =
                sum_list (map (\<lambda>e. s_git_commits (activity_summary e)) employee_clusters),
              total_emails_sent =
                sum_list (map (\<lambda>e. s_emails_sent (activity_summary e)) employee_clusters),
              total_emails_received =
                sum_list (map (\<lambda>e. s_emails_received (activity_summary e)) employee_clusters),
              potential_developers = developers,
              potential_managers = managers,
              potential_communicators = communicators,
              top_code_contributors = map employee top_by_commits,
              top_issue_resolvers = map employee top_by_jira\<rparr>)"

section \<open>identify\_collaboration\_networks\<close>

text \<open>\<^verbatim>\<open>defaultdict(lambda: defaultdict(int))\<close>: rows of weights, both in insertion order.\<close>

type_synonym graph = "(string \<times> (string \<times> nat) list) list"

text \<open>\<^verbatim>\<open>collaboration_graph[a][b] += 1\<close>.\<close>

definition bump :: "string \<Rightarrow> string \<Rightarrow> graph \<Rightarrow> graph" where
  "bump a b g = dd_update a [] (dd_update b 0 Suc) g"

text \<open>Reading a weight without creating it: an absent row or entry counts as \<open>0\<close>.\<close>

definition weight :: "graph \<Rightarrow> string \<Rightarrow> string \<Rightarrow> nat" where
  "weight g a b =
     (case map_of g a of
        None \<Rightarrow> 0
      | Some row \<Rightarrow> (case map_of row b of None \<Rightarrow> 0 | Some n \<Rightarrow> n))"

text \<open>Step 2, the body of the loop over the recipients of one email.\<close>

definition link_recipient :: "string option \<Rightarrow> string \<Rightarrow> graph \<Rightarrow> graph" where
  "link_recipient sender recipient g =
     (if truthy sender \<and> recipient \<noteq> [] \<and> the sender \<noteq> recipient
      then bump recipient (the sender) (bump (the sender) recipient g)
      else g)"

definition link_email :: "email \<Rightarrow> graph \<Rightarrow> graph" where
  "link_email e g = fold (link_recipient (em_sender e)) (recipients_of e) g"

text \<open>
  Step 3: \<^verbatim>\<open>ticket_contributors\<close> maps a ticket to the set of its authors, a list without
  repetition here.  The weights do not depend on the order in which Python lists the set
  (lemma \<open>weight_link_pairs\<close>).
\<close>

definition set_add :: "'a \<Rightarrow> 'a list \<Rightarrow> 'a list" where
  "set_add x xs = (if x \<in> set xs then xs else xs @ [x])"

definition add_contributor ::
  "commit \<Rightarrow> (string \<times> string list) list \<Rightarrow> (string \<times> string list) list" where
  "add_contributor c tc =
     (if truthy (cm_ticket c) \<and> truthy (cm_author c)
      then dd_update (the (cm_ticket c)) [] (set_add (the (cm_author c))) tc
      else tc)"

text \<open>The two nested loops over \<^verbatim>\<open>i\<close> and \<^verbatim>\<open>j > i\<close>.\<close>

fun link_pairs :: "string list \<Rightarrow> graph \<Rightarrow> graph" where
  "link_pairs [] g = g"
| "link_pairs (x # xs) g = link_pairs xs (fold (\<lambda>y g. bump y x (bump x y g)) xs g)"

definition link_contributors :: "string \<times> string list \<Rightarrow> graph \<Rightarrow> graph" where
  "link_contributors tc g =
     (case tc of (ticket, contributors) \<Rightarrow>
        if length contributors > 1 then link_pairs contributors g else g)"

text \<open>The graph after steps 2 and 3 (the tickets are read in step 1 only for a table that is never used).\<close>

definition collaboration_graph :: "commit list \<Rightarrow> email list \<Rightarrow> graph" where
  "collaboration_graph git_data email_data =
     fold link_contributors (fold add_contributor git_data [])
       (fold link_email email_data [])"

text \<open>Step 4.\<close>

record network =
  n_employee :: string
  total_collaborations :: nat
  collaborators :: "(string \<times> nat) list"

definition network_of :: "string \<times> (string \<times> nat) list \<Rightarrow> network" where
  "network_of entry =
     (case entry of (name, row) \<Rightarrow>
        \<lparr>n_employee = name,
         total_collaborations = sum_list (map snd row),
         collaborators = py_sort_reverse (\<lambda>x. int (snd x)) row\<rparr>)"

definition identify_collaboration_networks ::
  "employee_result list \<Rightarrow> ticket list \<Rightarrow> commit list \<Rightarrow> email list \<Rightarrow> network list" where
  "identify_collaboration_networks employee_clusters jira_data git_data email_data =
     py_sort_reverse (\<lambda>n. int (total_collaborations n))
       (map network_of (collaboration_graph git_data email_data))"

section \<open>extract\_skills\_from\_activity\<close>

definition tech_terms :: "string list" where
  "tech_terms =
     [''python'', ''javascript'', ''react'', ''node'', ''api'', ''database'',
      ''sql'', ''aws'', ''docker'', ''kubernetes'', ''frontend'', ''backend'']"

definition action_terms :: "string list" where
  "action_terms = [''fix'', ''implement'', ''refactor'', ''optimize'', ''test'', ''deploy'']"

text \<open>\<^verbatim>\<open>str.lower\<close> on ASCII text.\<close>

definition lower_char :: "char \<Rightarrow> char" where
  "lower_char c =
     (case map_of (zip ''ABCDEFGHIJKLMNOPQRSTUVWXYZ'' ''abcdefghijklmnopqrstuvwxyz'') c of
        Some l \<Rightarrow> l
      | None \<Rightarrow> c)"

definition lower :: "string \<Rightarrow> string" where
  "lower s = map lower_char s"

text \<open>\<^verbatim>\<open>t in s\<close> on strings: \<open>t\<close> occurs in \<open>s\<close> as a contiguous substring.\<close>

fun contains :: "string \<Rightarrow> string \<Rightarrow> bool" where
  "contains t [] = (t = [])"
| "contains t (c # cs) = (take (length t) (c # cs) = t \<or> contains t cs)"

text \<open>One inner loop: \<^verbatim>\<open>for term in terms: if term in text: skills[term] += 1\<close>.\<close>

definition count_terms :: "string list \<Rightarrow> string \<Rightarrow> (string \<times> nat) list \<Rightarrow> (string \<times> nat) list" where
  "count_terms terms text skills =
     fold (\<lambda>term sk. if contains term text then dd_update term 0 Suc sk else sk) terms skills"

text \<open>\<^verbatim>\<open>commit.get("message", "").lower()\<close>.\<close>

definition commit_message :: "commit \<Rightarrow> string" where
  "commit_message c = lower (case cm_message c of None \<Rightarrow> [] | Some m \<Rightarrow> m)"

definition skills_of_commit :: "commit \<Rightarrow> (string \<times> nat) list \<Rightarrow> (string \<times> nat) list" where
  "skills_of_commit c skills =
     count_terms action_terms (commit_message c) (count_terms tech_terms (commit_message c) skills)"

definition skills_of_ticket :: "ticket \<Rightarrow> (string \<times> nat) list \<Rightarrow> (string \<times> nat) list" where
  "skills_of_ticket t skills = count_terms tech_terms (lower (tk_summary t)) skills"

text \<open>The dictionary \<^verbatim>\<open>skills\<close> of one employee after both loops.\<close>

definition skill_counts :: "employee_result \<Rightarrow> (string \<times> nat) list" where
  "skill_counts employee_data =
     fold skills_of_ticket (p_jira_assigned employee_data @ p_jira_resolved employee_data)
       (fold skills_of_commit (p_git_commits employee_data) [])"

text \<open>The list stored under the employee: (skill, mentions) pairs, most mentioned first.\<close>

definition skill_list :: "employee_result \<Rightarrow> (string \<times> nat) list" where
  "skill_list employee_data = py_sort_reverse (\<lambda>x. int (snd x)) (skill_counts employee_data)"

definition extract_skills_from_activity ::
  "employee_result list \<Rightarrow> (string \<times> (string \<times> nat) list) list" where
  "extract_skills_from_activity employee_clusters =
     fold (\<lambda>employee_data employee_skills.
             dd_update (employee employee_data) [] (\<lambda>_. skill_list employee_data) employee_skills)
       employee_clusters []"

text \<open>The mentions emitted for a term; a term that is not emitted has none.\<close>

definition mentions :: "(string \<times> nat) list \<Rightarrow> string \<Rightarrow> nat" where
  "mentions skills term = (case map_of skills term of None \<Rightarrow> 0 | Some n \<Rightarrow> n)"

section \<open>The role conditions, as the specification words them\<close>

definition spec_developer :: "activity_summary \<Rightarrow> bool" where
  "spec_developer s = (s_git_commits s > s_emails_sent s + s_emails_received s)"

definition spec_communicator :: "activity_summary \<Rightarrow> bool" where
  "spec_communicator s = (s_emails_sent s > 2 * s_git_commits s)"

definition spec_manager :: "activity_summary \<Rightarrow> bool" where
  "spec_manager s =
     (spec_communicator s \<and> jira_tickets_assigned s \<ge> 1 \<and> s_git_commits s = 0)"

section \<open>Notions used in the statements and proofs\<close>

text \<open>The task cluster stored under a key, and whether a commit names a ticket.\<close>

abbreviation (input) tget :: "task_clusters \<Rightarrow> string \<Rightarrow> task_cluster" where
  "tget \<equiv> dd_get default_task_cluster"

definition commit_of :: "string \<Rightarrow> commit \<Rightarrow> bool" where
  "commit_of k c = (truthy (cm_ticket c) \<and> the (cm_ticket c) = k)"

text \<open>The employee cluster stored under a key.\<close>

abbreviation (input) eget :: "employee_clusters \<Rightarrow> string \<Rightarrow> employee_cluster" where
  "eget \<equiv> dd_get default_employee_cluster"

text \<open>
  A timeline in time order, as the specification words it; and a sorted timeline that
  holds the same events and keeps the events of one timestamp in the order they had.
\<close>

definition chronological :: "event list \<Rightarrow> bool" where
  "chronological evs =
     (\<forall>i. Suc i < length evs \<longrightarrow> ev_timestamp (evs ! i) \<le> ev_timestamp (evs ! Suc i))"

definition keeps_order_of_ties :: "event list \<Rightarrow> event list \<Rightarrow> bool" where
  "keeps_order_of_ties sorted_evs evs =
     (mset sorted_evs = mset evs \<and>
      (\<forall>ts. filter (\<lambda>e. ev_timestamp e = ts) sorted_evs = filter (\<lambda>e. ev_timestamp e = ts) evs))"

text \<open>
  The strength that the output of \<open>identify_collaboration_networks\<close> records for colleague
  \<open>b\<close> in the entry of employee \<open>a\<close>; no entry counts as \<open>0\<close>.
\<close>

definition strength :: "network list \<Rightarrow> string \<Rightarrow> string \<Rightarrow> nat" where
  "strength networks a b =
     (case map_of (map (\<lambda>n. (n_employee n, collaborators n)) networks) a of
        None \<Rightarrow> 0
      | Some row \<Rightarrow> (case map_of row b of None \<Rightarrow> 0 | Some n \<Rightarrow> n))"

text \<open>A symmetric graph; and a graph whose keys and whose rows' keys are not repeated.\<close>

definition symmetric :: "graph \<Rightarrow> bool" where
  "symmetric g = (\<forall>a b. weight g a b = weight g b a)"

definition wf_graph :: "graph \<Rightarrow> bool" where
  "wf_graph g = (distinct (map fst g) \<and> (\<forall>row \<in> snd ` set g. distinct (map fst row)))"

text \<open>
  What the specification gives an employee: the tickets assigned to the name, the
  tickets whose resolution text names it, the commits it authored, the emails it sent,
  and one copy of an email for each time the name stands among the recipients.
\<close>

definition assigned_to :: "string \<Rightarrow> ticket list \<Rightarrow> ticket list" where
  "assigned_to name J = filter (\<lambda>t. tk_assignee t = Some name \<and> name \<noteq> []) J"

definition resolved_by :: "string \<Rightarrow> ticket list \<Rightarrow> ticket list" where
  "resolved_by name J =
     filter (\<lambda>t. case tk_resolution t of
                  None \<Rightarrow> False
                | Some res \<Rightarrow> search_resolver res = Some name) J"

definition authored_by :: "string \<Rightarrow> commit list \<Rightarrow> commit list" where
  "authored_by name G = filter (\<lambda>c. cm_author c = Some name \<and> name \<noteq> []) G"

definition sent_by :: "string \<Rightarrow> email list \<Rightarrow> email list" where
  "sent_by name E = filter (\<lambda>e. em_sender e = Some name \<and> name \<noteq> []) E"

definition received_by :: "string \<Rightarrow> email list \<Rightarrow> email list" where
  "received_by name E = concat (map (\<lambda>e. replicate (count_list (recipients_of e) name) e) E)"

text \<open>The sum of the five category counts of a name.\<close>

definition activity :: "ticket list \<Rightarrow> commit list \<Rightarrow> email list \<Rightarrow> string \<Rightarrow> nat" where
  "activity J G E name =
     length (assigned_to name J) + length (resolved_by name J) + length (authored_by name G)
     + length (sent_by name E) + length (received_by name E)"

text \<open>
  The names that one ticket, one commit and one email bring up, in the order in which
  the loops read them; and the employees in the order in which they are first met.
\<close>

definition ticket_names :: "ticket \<Rightarrow> string list" where
  "ticket_names t =
     (if truthy (tk_assignee t) then [the (tk_assignee t)] else []) @
     (if truthy (tk_resolution t)
      then (case search_resolver (the (tk_resolution t)) of None \<Rightarrow> [] | Some resolver \<Rightarrow> [resolver])
      else [])"

definition commit_names :: "commit \<Rightarrow> string list" where
  "commit_names c = (if truthy (cm_author c) then [the (cm_author c)] else [])"

definition email_names :: "email \<Rightarrow> string list" where
  "email_names e = (if truthy (em_sender e) then [the (em_sender e)] else []) @ recipients_of e"

definition employees_met :: "ticket list \<Rightarrow> commit list \<Rightarrow> email list \<Rightarrow> string list" where
  "employees_met J G E =
     fold set_add
       (concat (map ticket_names J) @ concat (map commit_names G) @ concat (map email_names E)) []"

text \<open>The five lists of an employee cluster; and a cluster that holds a record.\<close>

definition lists_of :: "employee_cluster \<Rightarrow> ticket list \<times> ticket list \<times> commit list \<times> email list \<times> email list" where
  "lists_of cl = (jira_assigned cl, jira_resolved cl, e_git_commits cl, emails_sent cl, emails_received cl)"

definition active :: "employee_cluster \<Rightarrow> bool" where
  "active cl = (jira_assigned cl \<noteq> [] \<or> jira_resolved cl \<noteq> [] \<or> e_git_commits cl \<noteq> [] \<or>
                emails_sent cl \<noteq> [] \<or> emails_received cl \<noteq> [])"

section \<open>Example data\<close>

definition ex_ticket1 :: ticket where
  "ex_ticket1 = \<lparr>tk_id = ''PROJ-1'', tk_summary = ''Fix the login API'', tk_status = ''Done'',
     tk_assignee = Some ''alice'', tk_created_at = 10, tk_updated_at = 30,
     tk_resolution = Some ''Resolved by bob''\<rparr>"

definition ex_ticket12 :: ticket where
  "ex_ticket12 = \<lparr>tk_id = ''PROJ-12'', tk_summary = ''Upgrade database'', tk_status = ''Open'',
     tk_assignee = None, tk_created_at = 20, tk_updated_at = 20, tk_resolution = None\<rparr>"

definition ex_commit1 :: commit where
  "ex_commit1 = \<lparr>cm_commit_id = ''123e4567-e89b-12d3-a456-426614174000'',
     cm_author = Some ''alice'', cm_ticket = Some ''PROJ-1'',
     cm_message = Some ''Fix python, test Python'', cm_timestamp = 15\<rparr>"

definition ex_commit2 :: commit where
  "ex_commit2 = \<lparr>cm_commit_id = ''c2'', cm_author = Some ''alice'', cm_ticket = None,
     cm_message = None, cm_timestamp = 16\<rparr>"

definition ex_commit3 :: commit where
  "ex_commit3 = \<lparr>cm_commit_id = ''c3'', cm_author = Some ''carol'', cm_ticket = Some ''PROJ-404'',
     cm_message = Some ''deploy'', cm_timestamp = 17\<rparr>"

definition ex_commit4 :: commit where
  "ex_commit4 = \<lparr>cm_commit_id = ''c4'', cm_author = Some ''carol'', cm_ticket = Some ''PROJ-1'',
     cm_message = Some ''Refactor python to Python 3'', cm_timestamp = 18\<rparr>"

definition ex_email_direct :: email where
  "ex_email_direct = \<lparr>em_thread_id = ''t1'', em_sender = Some ''alice'',
     em_recipients = Some [''bob''], em_subject = ''PROJ-12 review'',
     em_body = ''see PROJ-12 and PROJ-99'', em_timestamp = 20\<rparr>"

definition ex_email_uuid :: email where
  "ex_email_uuid = \<lparr>em_thread_id = ''t2'', em_sender = Some ''bob'',
     em_recipients = None, em_subject = ''question'',
     em_body = ''about 123e4567-e89b-12d3-a456-426614174000'', em_timestamp = 5\<rparr>"

definition ex_email_boundary :: email where
  "ex_email_boundary = \<lparr>em_thread_id = ''t3'', em_sender = Some ''carol'',
     em_recipients = Some [''alice''], em_subject = ''Re: PROJ-1'',
     em_body = ''2 of 3 tests fail'', em_timestamp = 40\<rparr>"

definition ex_jira :: "ticket list" where
  "ex_jira = [ex_ticket1, ex_ticket12]"

definition ex_git :: "commit list" where
  "ex_git = [ex_commit1, ex_commit2, ex_commit3, ex_commit4]"

definition ex_emails :: "email list" where
  "ex_emails = [ex_email_direct, ex_email_uuid, ex_email_uuid]"

definition ex_out :: "task_result list" where
  "ex_out = cluster_task_data ex_jira ex_git ex_emails"

definition ex_employees :: "employee_result list" where
  "ex_employees = cluster_employee_data ex_jira ex_git ex_emails"

definition ex_git_unordered :: "commit list" where
  "ex_git_unordered = [ex_commit3, ex_commit1, ex_commit2]"

definition ex_emails_bob :: "email list" where
  "ex_emails_bob = [ex_email_uuid, ex_email_uuid]"

definition ex_ranking :: "employee_result list" where
  "ex_ranking = cluster_employee_data [] ex_git_unordered ex_emails_bob"

definition ex_ticket_blank :: ticket where
  "ex_ticket_blank = \<lparr>tk_id = [], tk_summary = ''untitled'', tk_status = ''Open'',
     tk_assignee = None, tk_created_at = 1, tk_updated_at = 1, tk_resolution = None\<rparr>"

definition ex_commit_blank :: commit where
  "ex_commit_blank = \<lparr>cm_commit_id = ''c9'', cm_author = Some ''alice'', cm_ticket = Some [],
     cm_message = None, cm_timestamp = 2\<rparr>"

definition ex_ticket1_again :: ticket where
  "ex_ticket1_again = \<lparr>tk_id = ''PROJ-1'', tk_summary = ''Fix the login API (reopened)'',
     tk_status = ''Open'', tk_assignee = Some ''bob'', tk_created_at = 50, tk_updated_at = 50,
     tk_resolution = None\<rparr>"

definition example_member :: "string \<Rightarrow> nat \<Rightarrow> nat \<Rightarrow> nat \<Rightarrow> nat \<Rightarrow> employee_result" where
  "example_member name assigned commits sent received =
     \<lparr>employee = name,
      activity_summary =
        \<lparr>jira_tickets_assigned = assigned, jira_tickets_resolved = 0, s_git_commits = commits,
         s_emails_sent = sent, s_emails_received = received,
         total_activity_count = assigned + commits + sent + received\<rparr>,
      p_jira_assigned = [], p_jira_resolved = [], p_git_commits = [], p_emails_sent = [],
      p_emails_received = [], p_timeline = []\<rparr>"

definition example_team :: "employee_result list" where
  "example_team =
     [example_member ''dana'' 1 5 1 2,
      example_member ''mia'' 2 0 3 9,
      example_member ''cy'' 0 1 4 0,
      example_member ''quinn'' 0 2 3 1]"

section \<open>Dictionaries\<close>

lemma map_of_dd_update:
  "map_of (dd_update k dflt f d) =
     (map_of d)(k \<mapsto> f (case map_of d k of None \<Rightarrow> dflt | Some v \<Rightarrow> v))"
  by (induction d) (auto simp: fun_eq_iff)

lemma dd_get_update:
  "dd_get dflt (dd_update k dflt f d) k' =
     (if k' = k then f (dd_get dflt d k) else dd_get dflt d k')"
  by (simp add: dd_get_def map_of_dd_update)

lemma map_fst_dd_update:
  "map fst (dd_update k dflt f d) =
     (if k \<in> set (map fst d) then map fst d else map fst d @ [k])"
proof (induction d)
  case Nil
  then show ?case by simp
next
  case (Cons p d)
  obtain k' v where p: "p = (k', v)" by (cases p)
  show ?case using Cons by (cases "k = k'") (simp_all add: p)
qed

lemma keys_dd_update: "fst ` set (dd_update k dflt f d) = insert k (fst ` set d)"
  using arg_cong [OF map_fst_dd_update, of set k dflt f d] by auto

lemma distinct_dd_update:
  "distinct (map fst d) \<Longrightarrow> distinct (map fst (dd_update k dflt f d))"
  by (simp add: map_fst_dd_update)

lemma dd_get_map:
  "g dflt = dflt \<Longrightarrow> dd_get dflt (map (\<lambda>(k, v). (k, g v)) d) k = g (dd_get dflt d k)"
  by (induction d) (auto simp: dd_get_def)

lemma dd_get_in: "distinct (map fst d) \<Longrightarrow> (k, v) \<in> set d \<Longrightarrow> dd_get dflt d k = v"
  by (simp add: dd_get_def)

lemma dd_get_notin: "k \<notin> fst ` set d \<Longrightarrow> dd_get dflt d k = dflt"
  by (simp add: dd_get_def map_of_eq_None_iff[THEN iffD2])

lemma in_dd_get: "k \<in> fst ` set d \<Longrightarrow> (k, dd_get dflt d k) \<in> set d"
  by (induction d) (auto simp: dd_get_def)

lemma dd_eqI:
  assumes "map fst a = map fst b" and "distinct (map fst a)"
    and "\<And>k. k \<in> fst ` set a \<Longrightarrow> dd_get dflt a k = dd_get dflt b k"
  shows "a = b"
  using assms
proof (induction a arbitrary: b)
  case Nil
  then show ?case by simp
next
  case (Cons p a)
  obtain k v where p: "p = (k, v)" by (cases p)
  from Cons.prems(1) obtain q b' where b: "b = q # b'" by (cases b) auto
  obtain k' v' where q: "q = (k', v')" by (cases q)
  have kk: "k' = k" and fsts: "map fst a = map fst b'"
    using Cons.prems(1) by (simp_all add: p b q)
  have "dd_get dflt (p # a) k = dd_get dflt b k"
    by (rule Cons.prems(3)) (simp add: p)
  then have vv: "v' = v" by (simp add: dd_get_def p b q kk)
  have "a = b'"
  proof (rule Cons.IH [OF fsts])
    show "distinct (map fst a)" using Cons.prems(2) by simp
    fix j assume j: "j \<in> fst ` set a"
    then have "j \<noteq> k" using Cons.prems(2) by (auto simp: p)
    moreover have "dd_get dflt (p # a) j = dd_get dflt b j"
      by (rule Cons.prems(3)) (use j in simp)
    ultimately show "dd_get dflt a j = dd_get dflt b' j"
      by (simp add: dd_get_def p b q kk)
  qed
  then show ?case by (simp add: p b q kk vv)
qed

section \<open>The task clusters, key by key\<close>

lemma in_final_task_clusters:
  "r \<in> set (final_task_clusters d) \<Longrightarrow>
     \<exists>k cl t. (k, cl) \<in> set d \<and> jira cl = Some t \<and> r = task_result_of k t cl"
  by (induction d rule: final_task_clusters.induct) (fastforce split: option.splits)+

lemma map_task_id_final:
  "map task_id (final_task_clusters d) = map fst (filter (\<lambda>(k, cl). jira cl \<noteq> None) d)"
  by (induction d rule: final_task_clusters.induct) (auto split: option.splits simp: task_result_of_def)

lemma map_fst_attach_direct: "map fst (attach_direct e k d) = map fst d"
  by (simp add: attach_direct_def map_fst_dd_update)

lemma map_fst_attach_by_commit: "map fst (attach_by_commit e cid d) = map fst d"
  by (induction d) (auto simp: attach_by_commit_def)

lemma map_fst_fold_attach_direct: "map fst (fold (attach_direct e) ks d) = map fst d"
  by (induction ks arbitrary: d) (simp_all add: map_fst_attach_direct)

lemma map_fst_fold_attach_by_commit: "map fst (fold (attach_by_commit e) cids d) = map fst d"
  by (induction cids arbitrary: d) (simp_all add: map_fst_attach_by_commit)

lemma keys_eq: "map fst a = map fst b \<Longrightarrow> fst ` set a = fst ` set b"
  by (metis set_map)

lemma keys_attach_direct: "fst ` set (attach_direct e k d) = fst ` set d"
  by (rule keys_eq) (rule map_fst_attach_direct)

lemma map_fst_process_email: "map fst (process_email e d) = map fst d"
  by (simp add: process_email_def Let_def map_fst_fold_attach_direct map_fst_fold_attach_by_commit)

lemma map_fst_fold_process_email: "map fst (fold process_email es d) = map fst d"
  by (induction es arbitrary: d) (simp_all add: map_fst_process_email)

lemma distinct_process_ticket: "distinct (map fst d) \<Longrightarrow> distinct (map fst (process_ticket t d))"
  by (simp add: process_ticket_def distinct_dd_update)

lemma distinct_process_commit: "distinct (map fst d) \<Longrightarrow> distinct (map fst (process_commit c d))"
  by (simp add: process_commit_def distinct_dd_update)

lemma distinct_fold_process_ticket:
  "distinct (map fst d) \<Longrightarrow> distinct (map fst (fold process_ticket ts d))"
  by (induction ts arbitrary: d) (simp_all add: distinct_process_ticket)

lemma distinct_fold_process_commit:
  "distinct (map fst d) \<Longrightarrow> distinct (map fst (fold process_commit cs d))"
  by (induction cs arbitrary: d) (simp_all add: distinct_process_commit)

lemma distinct_task_clusters_built: "distinct (map fst (task_clusters_built J G E))"
  by (simp add: task_clusters_built_def map_fst_fold_process_email
      distinct_fold_process_commit distinct_fold_process_ticket)

lemma map_fst_sort_task_timelines: "map fst (sort_task_timelines d) = map fst d"
  by (induction d) (auto simp: sort_task_timelines_def)

lemma in_sort_task_timelines:
  "(k, cl') \<in> set (sort_task_timelines d) \<longleftrightarrow>
     (\<exists>cl. (k, cl) \<in> set d \<and> cl' = cl\<lparr>timeline := py_sort ev_timestamp (timeline cl)\<rparr>)"
  by (auto simp: sort_task_timelines_def)


lemma jira_sort_task_timelines:
  "map fst (filter (\<lambda>(k, cl). jira cl \<noteq> None) (sort_task_timelines d)) =
     map fst (filter (\<lambda>(k, cl). jira cl \<noteq> None) d)"
  by (induction d) (auto simp: sort_task_timelines_def)

lemma map_task_id_cluster_task_data:
  "map task_id (cluster_task_data J G E) =
     map fst (filter (\<lambda>(k, cl). jira cl \<noteq> None) (task_clusters_built J G E))"
  by (simp only: cluster_task_data_def map_task_id_final jira_sort_task_timelines)

lemma cluster_task_dataD:
  assumes "r \<in> set (cluster_task_data J G E)"
  shows "\<exists>t. jira (dd_get default_task_cluster (task_clusters_built J G E) (task_id r)) = Some t
           \<and> created_at r = tk_created_at t"
    and "task_id r \<in> fst ` set (task_clusters_built J G E)"
    and "r_git_commits r =
           git_commits (dd_get default_task_cluster (task_clusters_built J G E) (task_id r))"
    and "r_emails r = emails (dd_get default_task_cluster (task_clusters_built J G E) (task_id r))"
    and "r_timeline r = py_sort ev_timestamp
           (timeline (dd_get default_task_cluster (task_clusters_built J G E) (task_id r)))"
proof -
  let ?d = "task_clusters_built J G E"
  have dist: "distinct (map fst ?d)" by (rule distinct_task_clusters_built)
  from assms obtain k cl t where kcl: "(k, cl) \<in> set ?d" and j: "jira cl = Some t"
    and r: "r = task_result_of k t (cl\<lparr>timeline := py_sort ev_timestamp (timeline cl)\<rparr>)"
    unfolding cluster_task_data_def
    by (auto dest!: in_final_task_clusters simp: in_sort_task_timelines)
  have k: "task_id r = k" by (simp add: r task_result_of_def)
  have g: "dd_get default_task_cluster ?d k = cl" using dist kcl by (rule dd_get_in)
  show "\<exists>t. jira (dd_get default_task_cluster ?d (task_id r)) = Some t \<and> created_at r = tk_created_at t"
    unfolding k g using j by (simp add: r task_result_of_def)
  show "task_id r \<in> fst ` set ?d" unfolding k using kcl by force
  show "r_git_commits r = git_commits (dd_get default_task_cluster ?d (task_id r))"
    unfolding k g by (simp add: r task_result_of_def)
  show "r_emails r = emails (dd_get default_task_cluster ?d (task_id r))"
    unfolding k g by (simp add: r task_result_of_def)
  show "r_timeline r = py_sort ev_timestamp (timeline (dd_get default_task_cluster ?d (task_id r)))"
    unfolding k g by (simp add: r task_result_of_def)
qed



lemma tget_process_ticket:
  "tget (process_ticket t d) k =
     (if k = tk_id t
      then (tget d k)\<lparr>jira := Some t, timeline := timeline (tget d k) @ [jira_event t]\<rparr>
      else tget d k)"
  by (simp add: process_ticket_def dd_get_update)

lemma tget_process_commit:
  "tget (process_commit c d) k =
     (if truthy (cm_ticket c) \<and> the (cm_ticket c) = k
      then (tget d k)\<lparr>git_commits := git_commits (tget d k) @ [c],
                      timeline := timeline (tget d k) @ [git_event c]\<rparr>
      else tget d k)"
  by (auto simp add: process_commit_def dd_get_update)

lemma tget_attach_direct:
  "tget (attach_direct e k' d) k =
     (if k = k' \<and> k' \<in> fst ` set d then attach_email e (tget d k) else tget d k)"
  by (simp add: attach_direct_def dd_get_update)

lemma tget_fold_attach_direct:
  "distinct ks \<Longrightarrow>
   tget (fold (attach_direct e) ks d) k =
     (if k \<in> set ks \<and> k \<in> fst ` set d then attach_email e (tget d k) else tget d k)"
proof (induction ks arbitrary: d)
  case Nil
  then show ?case by simp
next
  case (Cons k' ks)
  have "tget (fold (attach_direct e) (k' # ks) d) k = tget (fold (attach_direct e) ks (attach_direct e k' d)) k"
    by simp
  also have "\<dots> = (if k \<in> set ks \<and> k \<in> fst ` set d
                    then attach_email e (tget (attach_direct e k' d) k)
                    else tget (attach_direct e k' d) k)"
    using Cons.prems by (simp add: Cons.IH keys_attach_direct)
  also have "\<dots> = (if k \<in> set (k' # ks) \<and> k \<in> fst ` set d
                    then attach_email e (tget d k) else tget d k)"
    using Cons.prems by (auto simp: tget_attach_direct)
  finally show ?case .
qed

text \<open>The order in which the set of task identifiers is visited does not matter.\<close>

lemma direct_path_order_irrelevant:
  assumes "distinct (map fst d)" and "distinct ks" and "distinct ks'" and "set ks = set ks'"
  shows "fold (attach_direct e) ks d = fold (attach_direct e) ks' d"
proof (rule dd_eqI [where dflt = default_task_cluster])
  show "map fst (fold (attach_direct e) ks d) = map fst (fold (attach_direct e) ks' d)"
    by (simp add: map_fst_fold_attach_direct)
  show "distinct (map fst (fold (attach_direct e) ks d))"
    using assms(1) by (simp add: map_fst_fold_attach_direct)
  fix k
  show "tget (fold (attach_direct e) ks d) k = tget (fold (attach_direct e) ks' d) k"
    using assms(2,3,4) by (simp add: tget_fold_attach_direct)
qed

lemma attach_by_commit_map:
  "attach_by_commit e cid d =
     map (\<lambda>(k, cl). (k, if (\<exists>c \<in> set (git_commits cl). cm_commit_id c = cid) \<and> e \<notin> set (emails cl)
                         then attach_email e cl else cl)) d"
  by (auto simp: attach_by_commit_def)

lemma tget_attach_by_commit:
  "tget (attach_by_commit e cid d) k =
     (if (\<exists>c \<in> set (git_commits (tget d k)). cm_commit_id c = cid) \<and> e \<notin> set (emails (tget d k))
      then attach_email e (tget d k) else tget d k)"
  unfolding attach_by_commit_map
  by (subst dd_get_map) (simp_all add: default_task_cluster_def)

lemma tget_fold_attach_by_commit:
  "tget (fold (attach_by_commit e) cids d) k =
     (if (\<exists>c \<in> set (git_commits (tget d k)). cm_commit_id c \<in> set cids) \<and> e \<notin> set (emails (tget d k))
      then attach_email e (tget d k) else tget d k)"
proof (induction cids arbitrary: d)
  case Nil
  then show ?case by simp
next
  case (Cons cid cids)
  have "tget (fold (attach_by_commit e) (cid # cids) d) k =
          tget (fold (attach_by_commit e) cids (attach_by_commit e cid d)) k"
    by simp
  also have "\<dots> = (if (\<exists>c \<in> set (git_commits (tget d k)). cm_commit_id c \<in> set (cid # cids))
                        \<and> e \<notin> set (emails (tget d k))
                    then attach_email e (tget d k) else tget d k)"
    unfolding Cons.IH by (auto simp: tget_attach_by_commit attach_email_def)
  finally show ?case .
qed

lemma distinct_email_task_ids: "distinct (email_task_ids e)"
  by (simp add: email_task_ids_def)

lemma tget_process_email:
  "tget (process_email e d) k =
     (if (if email_task_ids e \<noteq> []
          then k \<in> set (email_task_ids e) \<and> k \<in> fst ` set d
          else (\<exists>c \<in> set (git_commits (tget d k)). cm_commit_id c \<in> set (email_commit_ids e))
               \<and> e \<notin> set (emails (tget d k)))
      then attach_email e (tget d k) else tget d k)"
  by (simp add: process_email_def Let_def tget_fold_attach_direct distinct_email_task_ids
      tget_fold_attach_by_commit)


lemma tget_fold_process_ticket:
  "tget (fold process_ticket J d) k =
     (tget d k)\<lparr>jira := (if filter (\<lambda>t. tk_id t = k) J = [] then jira (tget d k)
                          else Some (last (filter (\<lambda>t. tk_id t = k) J))),
                 timeline := timeline (tget d k) @ map jira_event (filter (\<lambda>t. tk_id t = k) J)\<rparr>"
proof (induction J arbitrary: d)
  case Nil
  then show ?case by simp
next
  case (Cons t J)
  show ?case
    by (simp add: Cons.IH tget_process_ticket)
qed

lemma keys_fold_process_ticket:
  "fst ` set (fold process_ticket J d) = fst ` set d \<union> tk_id ` set J"
  by (induction J arbitrary: d) (auto simp: process_ticket_def keys_dd_update)


lemma tget_fold_process_commit:
  "tget (fold process_commit G d) k =
     (tget d k)\<lparr>git_commits := git_commits (tget d k) @ filter (commit_of k) G,
                 timeline := timeline (tget d k) @ map git_event (filter (commit_of k) G)\<rparr>"
proof (induction G arbitrary: d)
  case Nil
  then show ?case by simp
next
  case (Cons c G)
  show ?case
    by (simp add: Cons.IH tget_process_commit commit_of_def)
qed

lemma keys_fold_process_commit:
  "fst ` set (fold process_commit G d) =
     fst ` set d \<union> {k. \<exists>c \<in> set G. commit_of k c}"
  by (induction G arbitrary: d) (auto simp: process_commit_def keys_dd_update commit_of_def)

lemma process_email_keeps:
  "jira (tget (process_email e d) k) = jira (tget d k)"
  "git_commits (tget (process_email e d) k) = git_commits (tget d k)"
  by (simp_all add: tget_process_email attach_email_def)

lemma fold_process_email_keeps:
  "jira (tget (fold process_email E d) k) = jira (tget d k)"
  "git_commits (tget (fold process_email E d) k) = git_commits (tget d k)"
  by (induction E arbitrary: d) (simp_all add: process_email_keeps)

lemma process_email_timeline:
  "timeline (tget d k) = pre @ map email_event (emails (tget d k)) \<Longrightarrow>
   timeline (tget (process_email e d) k) = pre @ map email_event (emails (tget (process_email e d) k))"
  by (simp add: tget_process_email attach_email_def)

lemma fold_process_email_timeline:
  "timeline (tget d k) = pre @ map email_event (emails (tget d k)) \<Longrightarrow>
   timeline (tget (fold process_email E d) k) =
     pre @ map email_event (emails (tget (fold process_email E d) k))"
  by (induction E arbitrary: d) (simp_all add: process_email_timeline)

lemma tget_empty:
  "jira (tget [] k) = None" "git_commits (tget [] k) = []"
  "emails (tget [] k) = []" "timeline (tget [] k) = []"
  by (simp_all add: dd_get_def default_task_cluster_def)

text \<open>The cluster stored under a key once the three loops are done.\<close>

lemma built_jira:
  "jira (tget (task_clusters_built J G E) k) =
     (if filter (\<lambda>t. tk_id t = k) J = [] then None
      else Some (last (filter (\<lambda>t. tk_id t = k) J)))"
  by (simp add: task_clusters_built_def fold_process_email_keeps tget_fold_process_commit
      tget_fold_process_ticket tget_empty)

lemma built_git_commits:
  "git_commits (tget (task_clusters_built J G E) k) = filter (commit_of k) G"
  by (simp add: task_clusters_built_def fold_process_email_keeps tget_fold_process_commit
      tget_fold_process_ticket tget_empty)

lemma built_timeline:
  "timeline (tget (task_clusters_built J G E) k) =
     (map jira_event (filter (\<lambda>t. tk_id t = k) J) @ map git_event (filter (commit_of k) G))
     @ map email_event (emails (tget (task_clusters_built J G E) k))"
  unfolding task_clusters_built_def
  by (rule fold_process_email_timeline)
     (simp add: tget_fold_process_commit tget_fold_process_ticket tget_empty)

lemma built_keys:
  "fst ` set (task_clusters_built J G E) = tk_id ` set J \<union> {k. \<exists>c \<in> set G. commit_of k c}"
  by (simp add: task_clusters_built_def keys_eq [OF map_fst_fold_process_email]
      keys_fold_process_commit keys_fold_process_ticket)

section \<open>Properties of cluster\_task\_data\<close>

lemma task_ids_cluster_task_data:
  "set (map task_id (cluster_task_data J G E)) = tk_id ` set J"
proof -
  let ?d = "task_clusters_built J G E"
  have dist: "distinct (map fst ?d)" by (rule distinct_task_clusters_built)
  have jira_iff: "jira (tget ?d k) \<noteq> None \<longleftrightarrow> k \<in> tk_id ` set J" for k
    by (auto simp: built_jira filter_empty_conv)
  have "set (map task_id (cluster_task_data J G E)) =
          {k. \<exists>cl. (k, cl) \<in> set ?d \<and> jira cl \<noteq> None}"
    unfolding map_task_id_cluster_task_data by force
  also have "\<dots> = {k. k \<in> fst ` set ?d \<and> jira (tget ?d k) \<noteq> None}"
    using dd_get_in [OF dist, of _ _ default_task_cluster]
          in_dd_get [of _ ?d default_task_cluster]
    by (metis (no_types, opaque_lifting) fst_conv image_eqI)
  also have "\<dots> = tk_id ` set J"
    unfolding jira_iff by (auto simp: built_keys)
  finally show ?thesis .
qed

lemma distinct_task_ids: "distinct (map task_id (cluster_task_data J G E))"
  unfolding map_task_id_cluster_task_data
  by (rule distinct_map_filter) (rule distinct_task_clusters_built)

text \<open>
  C4.  The keys of the output clusters are exactly the identifiers of the input tickets.
  So every output cluster has the identifier of some input ticket, a commit that names a
  ticket identifier without a ticket gets no output cluster, and neither does a task
  identifier that only an email mentions: no placeholder cluster reaches the output.
\<close>

theorem task_cluster_keys_are_ticket_ids:
  "task_id ` set (cluster_task_data J G E) = tk_id ` set J
   \<and> (\<forall>c \<in> set G. \<forall>k. cm_ticket c = Some k \<and> k \<notin> tk_id ` set J
        \<longrightarrow> k \<notin> task_id ` set (cluster_task_data J G E))
   \<and> (\<forall>e \<in> set E. \<forall>k \<in> set (email_task_ids e). k \<notin> tk_id ` set J
        \<longrightarrow> k \<notin> task_id ` set (cluster_task_data J G E))"
  using task_ids_cluster_task_data [of J G E] by simp

lemma filter_unique_key:
  "distinct (map f xs) \<Longrightarrow> x \<in> set xs \<Longrightarrow> (\<And>y. y \<in> set xs \<Longrightarrow> P y \<longleftrightarrow> f y = f x) \<Longrightarrow>
   filter P xs = [x]"
proof (induction xs)
  case Nil
  then show ?case by simp
next
  case (Cons a xs)
  show ?case
  proof (cases "a = x")
    case True
    have "\<And>y. y \<in> set xs \<Longrightarrow> \<not> P y"
      using Cons.prems(1,3) True by (metis distinct.simps(2) image_eqI list.set_intros(2) list.simps(9) set_map)
    then have "filter P xs = []" by (simp add: filter_empty_conv)
    moreover have "P a" using Cons.prems(3)[of a] True by simp
    ultimately show ?thesis using True by simp
  next
    case False
    then have x: "x \<in> set xs" using Cons.prems(2) by simp
    have "f a \<noteq> f x" using Cons.prems(1) x by force
    then have "\<not> P a" using Cons.prems(3)[of a] by simp
    moreover have "filter P xs = [x]"
      using Cons.IH Cons.prems x by simp
    ultimately show ?thesis by simp
  qed
qed

lemma commit_in_result:
  assumes "r \<in> set (cluster_task_data J G E)"
  shows "c \<in> set (r_git_commits r) \<longleftrightarrow> c \<in> set G \<and> commit_of (task_id r) c"
  by (simp add: cluster_task_dataD(3) [OF assms] built_git_commits)

text \<open>
  C5, as amended.  A commit of the input whose associated-ticket field is non-empty and
  equals the identifier of some input ticket is in the commit list of exactly one output
  cluster, the one keyed by that identifier.  A commit whose associated-ticket field is
  absent or empty is in the commit list of no output cluster.
\<close>

theorem commit_in_exactly_one_task_cluster:
  "(c \<in> set G \<and> truthy (cm_ticket c) \<and> the (cm_ticket c) \<in> tk_id ` set J \<longrightarrow>
      (\<exists>r. filter (\<lambda>r. c \<in> set (r_git_commits r)) (cluster_task_data J G E) = [r]
           \<and> task_id r = the (cm_ticket c)))
   \<and> (\<not> truthy (cm_ticket c) \<longrightarrow>
        filter (\<lambda>r. c \<in> set (r_git_commits r)) (cluster_task_data J G E) = [])"
proof (intro conjI impI)
  assume a: "c \<in> set G \<and> truthy (cm_ticket c) \<and> the (cm_ticket c) \<in> tk_id ` set J"
  let ?out = "cluster_task_data J G E"
  let ?k = "the (cm_ticket c)"
  from a have "?k \<in> set (map task_id ?out)" by (simp only: task_ids_cluster_task_data)
  then obtain r where r: "r \<in> set ?out" and k: "task_id r = ?k" by auto
  have "filter (\<lambda>r. c \<in> set (r_git_commits r)) ?out = [r]"
  proof (rule filter_unique_key [where f = task_id])
    show "distinct (map task_id ?out)" by (rule distinct_task_ids)
    show "r \<in> set ?out" by (rule r)
    fix y assume "y \<in> set ?out"
    then show "c \<in> set (r_git_commits y) \<longleftrightarrow> task_id y = task_id r"
      using a by (auto simp: commit_in_result commit_of_def k)
  qed
  then show "\<exists>r. filter (\<lambda>r. c \<in> set (r_git_commits r)) ?out = [r] \<and> task_id r = ?k"
    using k by blast
next
  assume "\<not> truthy (cm_ticket c)"
  then show "filter (\<lambda>r. c \<in> set (r_git_commits r)) (cluster_task_data J G E) = []"
    by (auto simp: filter_empty_conv commit_in_result commit_of_def)
qed

lemma filter_jira_events:
  "filter (\<lambda>ev. ev_type ev = ''jira'')
     (map jira_event ts @ map git_event cs @ map email_event es) = map jira_event ts"
  by (simp add: filter_map o_def jira_event_def git_event_def email_event_def)

text \<open>
  C10, as amended.  When the identifiers of the input tickets are pairwise distinct, the
  timeline of every output cluster consists of the \<open>jira\<close> event of its ticket, stamped with
  the ticket's creation time, one \<open>git\<close> event per commit of the cluster and one \<open>email\<close>
  event per attached email copy: it has exactly one event of type \<open>jira\<close>, and its length
  is 1 plus the number of commits plus the number of attached emails.
\<close>

theorem task_timeline_composition:
  assumes "distinct (map tk_id J)" and "r \<in> set (cluster_task_data J G E)"
  shows "\<exists>t \<in> set J. tk_id t = task_id r \<and> created_at r = tk_created_at t
           \<and> mset (r_timeline r) =
               mset (jira_event t # map git_event (r_git_commits r) @ map email_event (r_emails r))
           \<and> filter (\<lambda>ev. ev_type ev = ''jira'') (r_timeline r) = [jira_event t]
           \<and> length (r_timeline r) = 1 + length (r_git_commits r) + length (r_emails r)"
proof -
  let ?d = "task_clusters_built J G E"
  let ?k = "task_id r"
  note D = cluster_task_dataD [OF assms(2)]
  from D(1) obtain t where t: "jira (tget ?d ?k) = Some t" and c: "created_at r = tk_created_at t"
    by blast
  have ne: "filter (\<lambda>t. tk_id t = ?k) J \<noteq> []"
    using t by (auto simp: built_jira split: if_splits)
  have "length (filter (\<lambda>t. tk_id t = ?k) J) \<le> 1"
    using assms(1) by (induction J) (force simp: filter_empty_conv)+
  with ne obtain t' where one: "filter (\<lambda>t. tk_id t = ?k) J = [t']"
    by (cases "filter (\<lambda>t. tk_id t = ?k) J") auto
  have "t' = t" using t by (simp add: built_jira one)
  with one have one: "filter (\<lambda>t. tk_id t = ?k) J = [t]" by simp
  have "t \<in> set (filter (\<lambda>t. tk_id t = ?k) J)" unfolding one by simp
  then have tJ: "t \<in> set J" "tk_id t = ?k" by simp_all
  have tl: "r_timeline r = py_sort ev_timestamp
              (map jira_event [t] @ map git_event (r_git_commits r) @ map email_event (r_emails r))"
    unfolding D(5) by (subst built_timeline) (simp add: one D(3,4) built_git_commits)
  have m: "mset (r_timeline r) =
      mset (jira_event t # map git_event (r_git_commits r) @ map email_event (r_emails r))"
    unfolding tl by (simp add: py_sort_def)
  have f: "filter (\<lambda>ev. ev_type ev = ''jira'') (r_timeline r) = [jira_event t]"
    unfolding tl py_sort_def filter_sort filter_jira_events by simp
  have l: "length (r_timeline r) = 1 + length (r_git_commits r) + length (r_emails r)"
    unfolding tl by (simp add: py_sort_def)
  show ?thesis using tJ c m f l by blast
qed

lemma keys_process_email: "fst ` set (process_email e d) = fst ` set d"
  by (rule keys_eq) (rule map_fst_process_email)

lemma emails_process_email:
  "emails (tget (process_email e' d) k) =
     (if (if email_task_ids e' \<noteq> []
          then k \<in> set (email_task_ids e') \<and> k \<in> fst ` set d
          else (\<exists>c \<in> set (git_commits (tget d k)). cm_commit_id c \<in> set (email_commit_ids e'))
               \<and> e' \<notin> set (emails (tget d k)))
      then emails (tget d k) @ [e'] else emails (tget d k))"
  by (simp add: tget_process_email attach_email_def)

lemma count_direct:
  assumes "email_task_ids e \<noteq> []"
  shows "count_list (emails (tget (fold process_email E d) k)) e =
           count_list (emails (tget d k)) e +
           (if k \<in> set (email_task_ids e) \<and> k \<in> fst ` set d then count_list E e else 0)"
proof (induction E arbitrary: d)
  case Nil
  then show ?case by simp
next
  case (Cons e' E)
  have step: "count_list (emails (tget (process_email e' d) k)) e =
                count_list (emails (tget d k)) e +
                (if e' = e \<and> k \<in> set (email_task_ids e) \<and> k \<in> fst ` set d then 1 else 0)"
    using assms by (auto simp: emails_process_email)
  show ?case
    by (simp add: Cons.IH step keys_process_email)
qed

lemma count_fallback:
  assumes "email_task_ids e = []"
  shows "count_list (emails (tget (fold process_email E d) k)) e =
           (if e \<in> set (emails (tget d k)) then count_list (emails (tget d k)) e
            else if e \<in> set E \<and>
                    (\<exists>c \<in> set (git_commits (tget d k)). cm_commit_id c \<in> set (email_commit_ids e))
                 then 1 else 0)"
proof (induction E arbitrary: d)
  case Nil
  then show ?case by (simp add: count_list_0_iff)
next
  case (Cons e' E)
  show ?case
  proof (cases "e' = e")
    case True
    show ?thesis
      using assms
      by (simp add: Cons.IH True emails_process_email process_email_keeps count_list_0_iff)
  next
    case False
    have m: "e \<in> set (emails (tget (process_email e' d) k)) \<longleftrightarrow> e \<in> set (emails (tget d k))"
      using False by (auto simp: emails_process_email)
    have c: "count_list (emails (tget (process_email e' d) k)) e = count_list (emails (tget d k)) e"
      using False by (auto simp: emails_process_email)
    show ?thesis
      using False by (simp add: Cons.IH m c process_email_keeps)
  qed
qed

lemma emails_before: "emails (tget (fold process_commit G (fold process_ticket J [])) k) = []"
  by (simp add: tget_fold_process_commit tget_fold_process_ticket tget_empty)

text \<open>
  C6.  Take any email and any output cluster.  If subject+body of the email holds at least
  one task-identifier token, the cluster holds as many copies of the email as the input
  does when the cluster's key is one of these tokens, and none otherwise: the UUID
  fallback is not tried, even when no token names an existing cluster.  If subject+body
  holds no such token, the cluster holds the email exactly once when the email is in the
  input and the cluster has a commit whose identifier is a UUID-shaped token of the body,
  and not at all otherwise: never twice.
\<close>

theorem uuid_fallback_short_circuit_and_dedup:
  assumes "r \<in> set (cluster_task_data J G E)"
  shows "(findall_task (em_subject e @ em_body e) \<noteq> [] \<longrightarrow>
            count_list (r_emails r) e =
              (if task_id r \<in> set (findall_task (em_subject e @ em_body e))
               then count_list E e else 0))
       \<and> (findall_task (em_subject e @ em_body e) = [] \<longrightarrow>
            count_list (r_emails r) e =
              (if e \<in> set E \<and>
                  (\<exists>c \<in> set (r_git_commits r). cm_commit_id c \<in> set (findall_uuid (em_body e)))
               then 1 else 0))"
proof -
  let ?d0 = "fold process_commit G (fold process_ticket J [])"
  note D = cluster_task_dataD [OF assms]
  have built: "task_clusters_built J G E = fold process_email E ?d0"
    by (simp add: task_clusters_built_def)
  have keys: "task_id r \<in> fst ` set ?d0"
    using D(2) unfolding built by (simp add: keys_eq [OF map_fst_fold_process_email])
  have gc: "git_commits (tget ?d0 (task_id r)) = r_git_commits r"
    unfolding D(3) built by (simp add: fold_process_email_keeps)
  have ids: "email_task_ids e = [] \<longleftrightarrow> findall_task (em_subject e @ em_body e) = []"
    "set (email_task_ids e) = set (findall_task (em_subject e @ em_body e))"
    by (simp_all add: email_task_ids_def)
  show ?thesis
  proof (intro conjI impI)
    assume "findall_task (em_subject e @ em_body e) \<noteq> []"
    then have "email_task_ids e \<noteq> []" by (simp add: ids)
    from count_direct [OF this, of E ?d0 "task_id r"]
    show "count_list (r_emails r) e =
              (if task_id r \<in> set (findall_task (em_subject e @ em_body e))
               then count_list E e else 0)"
      unfolding D(4) built using keys by (simp add: emails_before ids)
  next
    assume "findall_task (em_subject e @ em_body e) = []"
    then have "email_task_ids e = []" by (simp add: ids)
    from count_fallback [OF this, of E ?d0 "task_id r"]
    show "count_list (r_emails r) e =
              (if e \<in> set E \<and>
                  (\<exists>c \<in> set (r_git_commits r). cm_commit_id c \<in> set (findall_uuid (em_body e)))
               then 1 else 0)"
      unfolding D(4) built gc by (simp add: emails_before email_commit_ids_def)
  qed
qed

subsection \<open>On the example data\<close>

lemma ex_out_ids: "map task_id (cluster_task_data ex_jira ex_git ex_emails) = [''PROJ-1'', ''PROJ-12'']"
  by code_simp

theorem task_cluster_keys_are_ticket_ids_witness:
  "task_id ` set (cluster_task_data ex_jira ex_git ex_emails) = {''PROJ-1'', ''PROJ-12''}
   \<and> ''PROJ-404'' \<notin> task_id ` set (cluster_task_data ex_jira ex_git ex_emails)
   \<and> ''PROJ-99'' \<notin> task_id ` set (cluster_task_data ex_jira ex_git ex_emails)"
  using task_cluster_keys_are_ticket_ids [of ex_jira ex_git ex_emails]
  by (simp add: ex_jira_def ex_ticket1_def ex_ticket12_def)


lemma ex_out_hd_in: "hd ex_out \<in> set ex_out"
proof -
  have "map task_id ex_out \<noteq> []" unfolding ex_out_def ex_out_ids by simp
  then show ?thesis by simp
qed

lemma ex_out_1_in: "last ex_out \<in> set ex_out"
proof -
  have "map task_id ex_out \<noteq> []" unfolding ex_out_def ex_out_ids by simp
  then show ?thesis by simp
qed

lemma ex_out_hd: "task_id (hd ex_out) = ''PROJ-1''" "r_git_commits (hd ex_out) = [ex_commit1, ex_commit4]"
  unfolding ex_out_def by code_simp+

lemma ex_out_1: "task_id (last ex_out) = ''PROJ-12''"
  unfolding ex_out_def by code_simp

lemma ex_tokens:
  "findall_task (em_subject ex_email_uuid @ em_body ex_email_uuid) = []"
  "findall_task (em_subject ex_email_direct @ em_body ex_email_direct) = [''PROJ-12'', ''PROJ-12'', ''PROJ-99'']"
  "findall_uuid (em_body ex_email_uuid) = [''123e4567-e89b-12d3-a456-426614174000'']"
  by code_simp+

theorem commit_in_exactly_one_task_cluster_witness:
  "(\<exists>r. filter (\<lambda>r. ex_commit1 \<in> set (r_git_commits r)) ex_out = [r] \<and> task_id r = ''PROJ-1'')
   \<and> filter (\<lambda>r. ex_commit2 \<in> set (r_git_commits r)) ex_out = []"
  using commit_in_exactly_one_task_cluster [of ex_commit1 ex_git ex_jira ex_emails] commit_in_exactly_one_task_cluster [of ex_commit2 ex_git ex_jira ex_emails]
  unfolding ex_out_def
  by (simp add: ex_git_def ex_jira_def ex_commit1_def ex_commit2_def ex_ticket1_def ex_ticket12_def)

lemma ex_counts:
  "count_list ex_emails ex_email_uuid = 2" "count_list ex_emails ex_email_direct = 1"
  "ex_email_uuid \<in> set ex_emails"
  "cm_commit_id ex_commit1 = ''123e4567-e89b-12d3-a456-426614174000''"
  "cm_commit_id ex_commit4 = ''c4''"
  by code_simp+

theorem uuid_fallback_short_circuit_and_dedup_witness:
  "count_list (r_emails (hd ex_out)) ex_email_uuid = 1
   \<and> count_list (r_emails (last ex_out)) ex_email_direct = 1
   \<and> count_list (r_emails (hd ex_out)) ex_email_direct = 0"
  using uuid_fallback_short_circuit_and_dedup [OF ex_out_hd_in [unfolded ex_out_def], of ex_email_uuid]
        uuid_fallback_short_circuit_and_dedup [OF ex_out_1_in [unfolded ex_out_def], of ex_email_direct]
        uuid_fallback_short_circuit_and_dedup [OF ex_out_hd_in [unfolded ex_out_def], of ex_email_direct]
  unfolding ex_out_def [symmetric]
  by (simp add: ex_tokens ex_out_hd ex_out_1 ex_counts)

theorem task_timeline_composition_witness:
  "filter (\<lambda>ev. ev_type ev = ''jira'') (r_timeline (hd ex_out)) = [jira_event ex_ticket1]
   \<and> length (r_timeline (hd ex_out)) = 1 + length (r_git_commits (hd ex_out)) + length (r_emails (hd ex_out))"
proof -
  have d: "distinct (map tk_id ex_jira)"
    by (simp add: ex_jira_def ex_ticket1_def ex_ticket12_def)
  from task_timeline_composition [OF d ex_out_hd_in [unfolded ex_out_def]]
  show ?thesis
    unfolding ex_out_def [symmetric]
    by (auto simp: ex_out_hd ex_jira_def ex_ticket1_def ex_ticket12_def)
qed

text \<open>
  C5 as stated fails for a ticket whose identifier is the empty string: a commit that
  names it is dropped, since the code tests the field for truth.
\<close>

theorem commit_with_empty_ticket_reference_dropped:
  "cm_ticket ex_commit_blank = Some (tk_id ex_ticket_blank)
   \<and> map task_id (cluster_task_data [ex_ticket_blank] [ex_commit_blank] []) = [tk_id ex_ticket_blank]
   \<and> map r_git_commits (cluster_task_data [ex_ticket_blank] [ex_commit_blank] []) = [[]]"
  by code_simp

text \<open>
  C10 as stated fails when two input tickets carry one identifier: their cluster has two
  events of type \<open>jira\<close>.
\<close>

theorem duplicate_ticket_id_two_jira_events:
  "map (\<lambda>r. (task_id r, map ev_type (r_timeline r), length (r_git_commits r), length (r_emails r)))
     (cluster_task_data [ex_ticket1, ex_ticket1_again] [] []) =
   [(''PROJ-1'', [''jira'', ''jira''], 0, 0)]"
  by code_simp

text \<open>
  C1.  The code scans the concatenation of subject and body.  Here the subject ends
  with the token \<open>PROJ-1\<close> and the body starts with a digit: the email goes to the cluster
  \<open>PROJ-12\<close>, whose key is a token of neither the subject nor the body, and the cluster
  \<open>PROJ-1\<close>, whose key is a token of the subject, receives nothing.
\<close>

theorem direct_path_token_across_boundary:
  "findall_task (em_subject ex_email_boundary) = [''PROJ-1'']
   \<and> findall_task (em_body ex_email_boundary) = []
   \<and> map (\<lambda>r. (task_id r, r_emails r)) (cluster_task_data ex_jira [] [ex_email_boundary]) =
       [(''PROJ-1'', []), (''PROJ-12'', [ex_email_boundary])]"
  by code_simp

section \<open>Properties of cluster\_employee\_data and of the timelines\<close>

lemma py_sort_chronological: "chronological (py_sort ev_timestamp evs)"
proof -
  have "sorted (map ev_timestamp (py_sort ev_timestamp evs))"
    by (simp add: py_sort_def)
  then show ?thesis
    unfolding chronological_def sorted_iff_nth_Suc by simp
qed

lemma py_sort_keeps_order_of_ties: "keeps_order_of_ties (py_sort ev_timestamp evs) evs"
  by (simp add: keeps_order_of_ties_def py_sort_def sort_key_stable)

lemma distinct_employee_ticket:
  "distinct (map fst d) \<Longrightarrow> distinct (map fst (employee_ticket t d))"
  by (simp add: employee_ticket_def employee_ticket_resolver_def employee_ticket_assignee_def
      distinct_dd_update split: option.splits)

lemma distinct_employee_commit:
  "distinct (map fst d) \<Longrightarrow> distinct (map fst (employee_commit c d))"
  by (simp add: employee_commit_def distinct_dd_update)

lemma distinct_fold_employee_email_recipient:
  "distinct (map fst d) \<Longrightarrow> distinct (map fst (fold (employee_email_recipient e) rs d))"
  by (induction rs arbitrary: d) (simp_all add: employee_email_recipient_def distinct_dd_update)

lemma distinct_employee_email:
  "distinct (map fst d) \<Longrightarrow> distinct (map fst (employee_email e d))"
  by (simp add: employee_email_def employee_email_sender_def distinct_dd_update
      distinct_fold_employee_email_recipient)

lemma distinct_fold_employee_ticket:
  "distinct (map fst d) \<Longrightarrow> distinct (map fst (fold employee_ticket J d))"
  by (induction J arbitrary: d) (simp_all add: distinct_employee_ticket)

lemma distinct_fold_employee_commit:
  "distinct (map fst d) \<Longrightarrow> distinct (map fst (fold employee_commit G d))"
  by (induction G arbitrary: d) (simp_all add: distinct_employee_commit)

lemma distinct_fold_employee_email:
  "distinct (map fst d) \<Longrightarrow> distinct (map fst (fold employee_email E d))"
  by (induction E arbitrary: d) (simp_all add: distinct_employee_email)

lemma distinct_employee_clusters_built: "distinct (map fst (employee_clusters_built J G E))"
  by (simp add: employee_clusters_built_def distinct_fold_employee_email
      distinct_fold_employee_commit distinct_fold_employee_ticket)

lemma in_final_employee_clusters:
  "r \<in> set (final_employee_clusters d) \<Longrightarrow>
     \<exists>name cl. (name, cl) \<in> set d \<and> r = employee_result_of name cl"
  by (induction d rule: final_employee_clusters.induct) (fastforce split: if_splits)+

lemma in_sort_employee_timelines:
  "(k, cl') \<in> set (sort_employee_timelines d) \<longleftrightarrow>
     (\<exists>cl. (k, cl) \<in> set d \<and> cl' = cl\<lparr>e_timeline := py_sort ev_timestamp (e_timeline cl)\<rparr>)"
  by (auto simp: sort_employee_timelines_def)

lemma set_cluster_employee_data:
  "set (cluster_employee_data J G E) = set (employee_clusters_unsorted J G E)"
  by (simp add: cluster_employee_data_def py_sort_reverse_def)

lemma cluster_employee_dataD:
  assumes "r \<in> set (cluster_employee_data J G E)"
  shows "p_timeline r = py_sort ev_timestamp
           (e_timeline (eget (employee_clusters_built J G E) (employee r)))"
    and "total_activity_count (activity_summary r) =
           jira_tickets_assigned (activity_summary r) + jira_tickets_resolved (activity_summary r)
           + s_git_commits (activity_summary r) + s_emails_sent (activity_summary r)
           + s_emails_received (activity_summary r)"
proof -
  let ?d = "employee_clusters_built J G E"
  have dist: "distinct (map fst ?d)" by (rule distinct_employee_clusters_built)
  from assms obtain k cl where kcl: "(k, cl) \<in> set ?d"
    and r: "r = employee_result_of k (cl\<lparr>e_timeline := py_sort ev_timestamp (e_timeline cl)\<rparr>)"
    unfolding set_cluster_employee_data employee_clusters_unsorted_def
    by (auto dest!: in_final_employee_clusters simp: in_sort_employee_timelines)
  have k: "employee r = k" by (simp add: r employee_result_of_def Let_def)
  have g: "eget ?d k = cl" using dist kcl by (rule dd_get_in)
  show "p_timeline r = py_sort ev_timestamp (e_timeline (eget ?d (employee r)))"
    unfolding k g by (simp add: r employee_result_of_def Let_def)
  show "total_activity_count (activity_summary r) =
           jira_tickets_assigned (activity_summary r) + jira_tickets_resolved (activity_summary r)
           + s_git_commits (activity_summary r) + s_emails_sent (activity_summary r)
           + s_emails_received (activity_summary r)"
    by (simp add: r employee_result_of_def Let_def)
qed

subsection \<open>The records and the order of the employee clusters\<close>

lemma truthy_iff: "truthy x \<and> the x = k \<longleftrightarrow> x = Some k \<and> k \<noteq> []"
  by (cases x) auto

lemma search_resolver_nonempty: "search_resolver s = Some w \<Longrightarrow> w \<noteq> []"
  by (induction s) (auto simp: match_resolver_def Let_def split: option.splits if_splits)

lemma eget_employee_ticket_assignee:
  "eget (employee_ticket_assignee t d) k =
     (if tk_assignee t = Some k \<and> k \<noteq> []
      then (eget d k)\<lparr>jira_assigned := jira_assigned (eget d k) @ [t],
                       e_timeline := e_timeline (eget d k) @
                         [employee_event ''jira_assigned'' (tk_id t) (tk_created_at t) (TicketData t)]\<rparr>
      else eget d k)"
  by (cases "tk_assignee t") (auto simp: employee_ticket_assignee_def dd_get_update)

lemma eget_employee_ticket_resolver:
  "eget (employee_ticket_resolver t d) k =
     (if (case tk_resolution t of None \<Rightarrow> False | Some res \<Rightarrow> search_resolver res = Some k)
      then (eget d k)\<lparr>jira_resolved := jira_resolved (eget d k) @ [t],
                       e_timeline := e_timeline (eget d k) @
                         [employee_event ''jira_resolved'' (tk_id t) (tk_updated_at t) (TicketData t)]\<rparr>
      else eget d k)"
proof (cases "tk_resolution t")
  case None
  then show ?thesis by (simp add: employee_ticket_resolver_def)
next
  case (Some res)
  show ?thesis
  proof (cases "res = []")
    case True
    then show ?thesis using Some by (simp add: employee_ticket_resolver_def)
  next
    case False
    then show ?thesis using Some
      by (cases "search_resolver res") (auto simp: employee_ticket_resolver_def dd_get_update)
  qed
qed

lemma eget_employee_commit:
  "eget (employee_commit c d) k =
     (if cm_author c = Some k \<and> k \<noteq> []
      then (eget d k)\<lparr>e_git_commits := e_git_commits (eget d k) @ [c],
                       e_timeline := e_timeline (eget d k) @
                         [employee_event ''git_commit'' (cm_commit_id c) (cm_timestamp c) (CommitData c)]\<rparr>
      else eget d k)"
  by (cases "cm_author c") (auto simp: employee_commit_def dd_get_update)

lemma eget_employee_email_sender:
  "eget (employee_email_sender e d) k =
     (if em_sender e = Some k \<and> k \<noteq> []
      then (eget d k)\<lparr>emails_sent := emails_sent (eget d k) @ [e],
                       e_timeline := e_timeline (eget d k) @
                         [employee_event ''email_sent'' (em_thread_id e) (em_timestamp e) (EmailData e)]\<rparr>
      else eget d k)"
  by (cases "em_sender e") (auto simp: employee_email_sender_def dd_get_update)

lemma eget_employee_email_recipient:
  "eget (employee_email_recipient e r d) k =
     (if r = k
      then (eget d k)\<lparr>emails_received := emails_received (eget d k) @ [e],
                       e_timeline := e_timeline (eget d k) @
                         [employee_event ''email_received'' (em_thread_id e) (em_timestamp e) (EmailData e)]\<rparr>
      else eget d k)"
  by (auto simp: employee_email_recipient_def dd_get_update)


lemma lists_employee_ticket:
  "lists_of (eget (employee_ticket t d) k) =
     (jira_assigned (eget d k) @ assigned_to k [t], jira_resolved (eget d k) @ resolved_by k [t],
      e_git_commits (eget d k), emails_sent (eget d k), emails_received (eget d k))"
  by (simp add: lists_of_def employee_ticket_def eget_employee_ticket_resolver
      eget_employee_ticket_assignee assigned_to_def resolved_by_def)

lemma lists_fold_employee_ticket:
  "lists_of (eget (fold employee_ticket J d) k) =
     (jira_assigned (eget d k) @ assigned_to k J, jira_resolved (eget d k) @ resolved_by k J,
      e_git_commits (eget d k), emails_sent (eget d k), emails_received (eget d k))"
proof (induction J arbitrary: d)
  case Nil
  then show ?case by (simp add: lists_of_def assigned_to_def resolved_by_def)
next
  case (Cons t J)
  have "lists_of (eget (fold employee_ticket (t # J) d) k) =
        lists_of (eget (fold employee_ticket J (employee_ticket t d)) k)" by simp
  also note Cons.IH
  finally show ?case
    using lists_employee_ticket [of t d k]
    by (simp add: lists_of_def assigned_to_def resolved_by_def)
qed

lemma lists_employee_commit:
  "lists_of (eget (employee_commit c d) k) =
     (jira_assigned (eget d k), jira_resolved (eget d k),
      e_git_commits (eget d k) @ authored_by k [c], emails_sent (eget d k), emails_received (eget d k))"
  by (simp add: lists_of_def eget_employee_commit authored_by_def)

lemma lists_fold_employee_commit:
  "lists_of (eget (fold employee_commit G d) k) =
     (jira_assigned (eget d k), jira_resolved (eget d k),
      e_git_commits (eget d k) @ authored_by k G, emails_sent (eget d k), emails_received (eget d k))"
proof (induction G arbitrary: d)
  case Nil
  then show ?case by (simp add: lists_of_def authored_by_def)
next
  case (Cons c G)
  have "lists_of (eget (fold employee_commit (c # G) d) k) =
        lists_of (eget (fold employee_commit G (employee_commit c d)) k)" by simp
  also note Cons.IH
  finally show ?case
    using lists_employee_commit [of c d k]
    by (simp add: lists_of_def authored_by_def)
qed

lemma lists_fold_recipient:
  "lists_of (eget (fold (employee_email_recipient e) rs d) k) =
     (jira_assigned (eget d k), jira_resolved (eget d k), e_git_commits (eget d k),
      emails_sent (eget d k), emails_received (eget d k) @ replicate (count_list rs k) e)"
proof (induction rs arbitrary: d)
  case Nil
  then show ?case by (simp add: lists_of_def)
next
  case (Cons r rs)
  have "lists_of (eget (fold (employee_email_recipient e) (r # rs) d) k) =
        lists_of (eget (fold (employee_email_recipient e) rs (employee_email_recipient e r d)) k)"
    by simp
  also note Cons.IH
  finally show ?case
    by (simp add: lists_of_def eget_employee_email_recipient replicate_append_same)
qed

lemma lists_employee_email:
  "lists_of (eget (employee_email e d) k) =
     (jira_assigned (eget d k), jira_resolved (eget d k), e_git_commits (eget d k),
      emails_sent (eget d k) @ sent_by k [e], emails_received (eget d k) @ received_by k [e])"
  unfolding employee_email_def lists_fold_recipient
  by (simp add: eget_employee_email_sender sent_by_def received_by_def)

lemma lists_fold_employee_email:
  "lists_of (eget (fold employee_email E d) k) =
     (jira_assigned (eget d k), jira_resolved (eget d k), e_git_commits (eget d k),
      emails_sent (eget d k) @ sent_by k E, emails_received (eget d k) @ received_by k E)"
proof (induction E arbitrary: d)
  case Nil
  then show ?case by (simp add: lists_of_def sent_by_def received_by_def)
next
  case (Cons e E)
  have "lists_of (eget (fold employee_email (e # E) d) k) =
        lists_of (eget (fold employee_email E (employee_email e d)) k)" by simp
  also note Cons.IH
  finally show ?case
    using lists_employee_email [of e d k]
    by (simp add: lists_of_def sent_by_def received_by_def)
qed

lemma lists_built:
  "lists_of (eget (employee_clusters_built J G E) k) =
     (assigned_to k J, resolved_by k J, authored_by k G, sent_by k E, received_by k E)"
proof -
  have e: "lists_of (eget [] k) = ([], [], [], [], [])"
    by (simp add: lists_of_def dd_get_def default_employee_cluster_def)
  have t: "lists_of (eget (fold employee_ticket J []) k) = (assigned_to k J, resolved_by k J, [], [], [])"
    using e unfolding lists_fold_employee_ticket by (simp add: lists_of_def)
  have c: "lists_of (eget (fold employee_commit G (fold employee_ticket J [])) k) =
             (assigned_to k J, resolved_by k J, authored_by k G, [], [])"
    using t unfolding lists_fold_employee_commit by (simp add: lists_of_def)
  show ?thesis
    using c unfolding employee_clusters_built_def lists_fold_employee_email
    by (simp add: lists_of_def)
qed

lemma dd_update_values_created:
  assumes "\<forall>v \<in> snd ` set d. P v" and "P (f dflt)" and "\<And>v. P v \<Longrightarrow> P (f v)"
  shows "\<forall>v \<in> snd ` set (dd_update k dflt f d). P v"
  using assms(1)
proof (induction d)
  case Nil
  then show ?case using assms(2) by simp
next
  case (Cons p d)
  obtain k' v where p: "p = (k', v)" by (cases p)
  show ?case
    using Cons assms(3) by (cases "k = k'") (simp_all add: p)
qed

lemma map_fst_dd_update_set_add: "map fst (dd_update k dflt f d) = set_add k (map fst d)"
  by (simp add: map_fst_dd_update set_add_def)

lemma names_employee_ticket:
  "map fst (employee_ticket t d) = fold set_add (ticket_names t) (map fst d)"
  by (simp add: employee_ticket_def employee_ticket_resolver_def employee_ticket_assignee_def
      ticket_names_def map_fst_dd_update_set_add split: option.splits)

lemma names_employee_commit:
  "map fst (employee_commit c d) = fold set_add (commit_names c) (map fst d)"
  by (simp add: employee_commit_def commit_names_def map_fst_dd_update_set_add)

lemma names_fold_recipient:
  "map fst (fold (employee_email_recipient e) rs d) = fold set_add rs (map fst d)"
  by (induction rs arbitrary: d)
     (simp_all add: employee_email_recipient_def map_fst_dd_update_set_add)

lemma names_employee_email:
  "map fst (employee_email e d) = fold set_add (email_names e) (map fst d)"
  by (simp add: employee_email_def names_fold_recipient employee_email_sender_def
      email_names_def map_fst_dd_update_set_add)

lemma names_fold_employee_ticket:
  "map fst (fold employee_ticket J d) = fold set_add (concat (map ticket_names J)) (map fst d)"
  by (induction J arbitrary: d) (simp_all add: names_employee_ticket)

lemma names_fold_employee_commit:
  "map fst (fold employee_commit G d) = fold set_add (concat (map commit_names G)) (map fst d)"
  by (induction G arbitrary: d) (simp_all add: names_employee_commit)

lemma names_fold_employee_email:
  "map fst (fold employee_email E d) = fold set_add (concat (map email_names E)) (map fst d)"
  by (induction E arbitrary: d) (simp_all add: names_employee_email)

lemma names_built: "map fst (employee_clusters_built J G E) = employees_met J G E"
  by (simp add: employee_clusters_built_def employees_met_def names_fold_employee_email
      names_fold_employee_commit names_fold_employee_ticket)

text \<open>Every cluster of the dictionary holds a record: step 6 skips none.\<close>

lemma active_dd_update:
  assumes "\<forall>cl \<in> snd ` set d. active cl" and "\<And>cl. active (f cl)"
  shows "\<forall>cl \<in> snd ` set (dd_update k dflt f d). active cl"
  by (rule dd_update_values_created) (use assms in simp_all)

lemma active_employee_ticket:
  assumes "\<forall>cl \<in> snd ` set d. active cl"
  shows "\<forall>cl \<in> snd ` set (employee_ticket t d). active cl"
proof -
  have a: "\<forall>cl \<in> snd ` set (employee_ticket_assignee t d). active cl"
  proof (cases "truthy (tk_assignee t)")
    case True
    show ?thesis
      unfolding employee_ticket_assignee_def if_P [OF True]
      by (rule active_dd_update [OF assms]) (simp add: active_def)
  next
    case False
    then show ?thesis using assms by (simp add: employee_ticket_assignee_def)
  qed
  show ?thesis
  proof (cases "truthy (tk_resolution t)")
    case False
    then show ?thesis using a by (simp add: employee_ticket_def employee_ticket_resolver_def)
  next
    case True
    show ?thesis
    proof (cases "search_resolver (the (tk_resolution t))")
      case None
      then show ?thesis using a True
        by (simp add: employee_ticket_def employee_ticket_resolver_def)
    next
      case (Some resolver)
      have "\<forall>cl \<in> snd ` set (dd_update resolver default_employee_cluster
                  (\<lambda>cl. cl\<lparr>jira_resolved := jira_resolved cl @ [t],
                            e_timeline := e_timeline cl @
                              [employee_event ''jira_resolved'' (tk_id t) (tk_updated_at t)
                                 (TicketData t)]\<rparr>) (employee_ticket_assignee t d)). active cl"
        by (rule active_dd_update [OF a]) (simp add: active_def)
      then show ?thesis using True Some
        by (simp add: employee_ticket_def employee_ticket_resolver_def)
    qed
  qed
qed

lemma active_employee_commit:
  assumes "\<forall>cl \<in> snd ` set d. active cl"
  shows "\<forall>cl \<in> snd ` set (employee_commit c d). active cl"
proof (cases "truthy (cm_author c)")
  case True
  show ?thesis
    unfolding employee_commit_def if_P [OF True]
    by (rule active_dd_update [OF assms]) (simp add: active_def)
next
  case False
  then show ?thesis using assms by (simp add: employee_commit_def)
qed

lemma active_fold_recipient:
  "\<forall>cl \<in> snd ` set d. active cl \<Longrightarrow>
   \<forall>cl \<in> snd ` set (fold (employee_email_recipient e) rs d). active cl"
proof (induction rs arbitrary: d)
  case Nil
  then show ?case by simp
next
  case (Cons r rs)
  have "\<forall>cl \<in> snd ` set (employee_email_recipient e r d). active cl"
    unfolding employee_email_recipient_def
    by (rule active_dd_update [OF Cons.prems]) (simp add: active_def)
  then show ?case using Cons.IH by simp
qed

lemma active_employee_email:
  assumes "\<forall>cl \<in> snd ` set d. active cl"
  shows "\<forall>cl \<in> snd ` set (employee_email e d). active cl"
proof -
  have "\<forall>cl \<in> snd ` set (employee_email_sender e d). active cl"
  proof (cases "truthy (em_sender e)")
    case True
    show ?thesis
      unfolding employee_email_sender_def if_P [OF True]
      by (rule active_dd_update [OF assms]) (simp add: active_def)
  next
    case False
    then show ?thesis using assms by (simp add: employee_email_sender_def)
  qed
  then show ?thesis unfolding employee_email_def by (rule active_fold_recipient)
qed

lemma active_fold:
  assumes step: "\<And>x d. \<forall>cl \<in> snd ` set d. active cl \<Longrightarrow> \<forall>cl \<in> snd ` set (f x d). active cl"
    and "\<forall>cl \<in> snd ` set d. active cl"
  shows "\<forall>cl \<in> snd ` set (fold f xs d). active cl"
  using assms(2)
proof (induction xs arbitrary: d)
  case Nil
  then show ?case by simp
next
  case (Cons x xs)
  from Cons.prems have "\<forall>cl \<in> snd ` set (f x d). active cl" by (rule step)
  then have "\<forall>cl \<in> snd ` set (fold f xs (f x d)). active cl" by (rule Cons.IH)
  then show ?case by simp
qed

lemma active_built: "\<forall>cl \<in> snd ` set (employee_clusters_built J G E). active cl"
proof -
  have 0: "\<forall>cl \<in> snd ` set ([] :: employee_clusters). active cl" by simp
  have 1: "\<forall>cl \<in> snd ` set (fold employee_ticket J []). active cl"
    using active_employee_ticket 0 by (rule active_fold)
  have 2: "\<forall>cl \<in> snd ` set (fold employee_commit G (fold employee_ticket J [])). active cl"
    using active_employee_commit 1 by (rule active_fold)
  show ?thesis
    unfolding employee_clusters_built_def
    using active_employee_email 2 by (rule active_fold)
qed

lemma names_final:
  "\<forall>cl \<in> snd ` set d. active cl \<Longrightarrow> map employee (final_employee_clusters d) = map fst d"
  by (induction d rule: final_employee_clusters.induct)
     (auto simp: active_def employee_result_of_def Let_def)

lemma names_sort_employee_timelines: "map fst (sort_employee_timelines d) = map fst d"
  by (induction d) (auto simp: sort_employee_timelines_def)

lemma active_sort_employee_timelines:
  "\<forall>cl \<in> snd ` set d. active cl \<Longrightarrow> \<forall>cl \<in> snd ` set (sort_employee_timelines d). active cl"
  by (induction d) (auto simp: sort_employee_timelines_def active_def)

lemma names_unsorted: "map employee (employee_clusters_unsorted J G E) = employees_met J G E"
proof -
  let ?d = "sort_employee_timelines (employee_clusters_built J G E)"
  have "\<forall>cl \<in> snd ` set ?d. active cl"
    using active_built by (rule active_sort_employee_timelines)
  then have "map employee (final_employee_clusters ?d) = map fst ?d"
    by (rule names_final)
  also have "\<dots> = employees_met J G E"
    by (simp only: names_sort_employee_timelines names_built)
  finally show ?thesis by (simp only: employee_clusters_unsorted_def)
qed

lemma cluster_employee_data_lists:
  assumes "x \<in> set (employee_clusters_unsorted J G E)"
  shows "p_jira_assigned x = assigned_to (employee x) J"
    and "p_jira_resolved x = resolved_by (employee x) J"
    and "p_git_commits x = authored_by (employee x) G"
    and "p_emails_sent x = sent_by (employee x) E"
    and "p_emails_received x = received_by (employee x) E"
    and "jira_tickets_assigned (activity_summary x) = length (p_jira_assigned x)"
    and "jira_tickets_resolved (activity_summary x) = length (p_jira_resolved x)"
    and "s_git_commits (activity_summary x) = length (p_git_commits x)"
    and "s_emails_sent (activity_summary x) = length (p_emails_sent x)"
    and "s_emails_received (activity_summary x) = length (p_emails_received x)"
    and "total_activity_count (activity_summary x) = activity J G E (employee x)"
proof -
  let ?d = "employee_clusters_built J G E"
  have dist: "distinct (map fst ?d)" by (rule distinct_employee_clusters_built)
  from assms obtain k cl where kcl: "(k, cl) \<in> set ?d"
    and x: "x = employee_result_of k (cl\<lparr>e_timeline := py_sort ev_timestamp (e_timeline cl)\<rparr>)"
    unfolding employee_clusters_unsorted_def
    by (auto dest!: in_final_employee_clusters simp: in_sort_employee_timelines)
  have k: "employee x = k" by (simp add: x employee_result_of_def Let_def)
  have g: "eget ?d k = cl" using dist kcl by (rule dd_get_in)
  have l: "lists_of cl = (assigned_to k J, resolved_by k J, authored_by k G, sent_by k E, received_by k E)"
    using lists_built [of J G E k] by (simp only: g)
  show "p_jira_assigned x = assigned_to (employee x) J"
    using l by (simp add: k x employee_result_of_def Let_def lists_of_def)
  show "p_jira_resolved x = resolved_by (employee x) J"
    using l by (simp add: k x employee_result_of_def Let_def lists_of_def)
  show "p_git_commits x = authored_by (employee x) G"
    using l by (simp add: k x employee_result_of_def Let_def lists_of_def)
  show "p_emails_sent x = sent_by (employee x) E"
    using l by (simp add: k x employee_result_of_def Let_def lists_of_def)
  show "p_emails_received x = received_by (employee x) E"
    using l by (simp add: k x employee_result_of_def Let_def lists_of_def)
  show "jira_tickets_assigned (activity_summary x) = length (p_jira_assigned x)"
    by (simp add: x employee_result_of_def Let_def)
  show "jira_tickets_resolved (activity_summary x) = length (p_jira_resolved x)"
    by (simp add: x employee_result_of_def Let_def)
  show "s_git_commits (activity_summary x) = length (p_git_commits x)"
    by (simp add: x employee_result_of_def Let_def)
  show "s_emails_sent (activity_summary x) = length (p_emails_sent x)"
    by (simp add: x employee_result_of_def Let_def)
  show "s_emails_received (activity_summary x) = length (p_emails_received x)"
    by (simp add: x employee_result_of_def Let_def)
  show "total_activity_count (activity_summary x) = activity J G E (employee x)"
    using l by (simp add: k x employee_result_of_def Let_def lists_of_def activity_def)
qed

lemma names_of_total:
  "map employee (filter (\<lambda>x. total_activity_count (activity_summary x) = n)
                  (employee_clusters_unsorted J G E)) =
   filter (\<lambda>name. activity J G E name = n) (employees_met J G E)"
proof -
  let ?u = "employee_clusters_unsorted J G E"
  have "filter (\<lambda>x. total_activity_count (activity_summary x) = n) ?u =
        filter (\<lambda>x. activity J G E (employee x) = n) ?u"
    by (rule filter_cong [OF refl]) (simp add: cluster_employee_data_lists(11))
  then have "map employee (filter (\<lambda>x. total_activity_count (activity_summary x) = n) ?u) =
             filter (\<lambda>name. activity J G E name = n) (map employee ?u)"
    by (simp add: filter_map o_def)
  then show ?thesis by (simp only: names_unsorted)
qed

text \<open>
  C7.  The sequence that \<open>cluster_employee_data\<close> returns is in descending order of
  \<open>total_activity_count\<close>.  Every cluster in it holds exactly the records that the input
  gives its employee, each of its five category counts is the length of the list it
  counts, and its \<open>total_activity_count\<close> is the sum of the five category counts.  The
  clusters of one total are in the order they had before the sort, which is the order in
  which the three loops first met their employees.
\<close>

theorem employee_clusters_sorted_by_activity:
  "sorted_wrt (\<lambda>x y. total_activity_count (activity_summary x)
                      \<ge> total_activity_count (activity_summary y))
     (cluster_employee_data J G E)
   \<and> (\<forall>x \<in> set (cluster_employee_data J G E).
        p_jira_assigned x = assigned_to (employee x) J
        \<and> p_jira_resolved x = resolved_by (employee x) J
        \<and> p_git_commits x = authored_by (employee x) G
        \<and> p_emails_sent x = sent_by (employee x) E
        \<and> p_emails_received x = received_by (employee x) E
        \<and> jira_tickets_assigned (activity_summary x) = length (p_jira_assigned x)
        \<and> jira_tickets_resolved (activity_summary x) = length (p_jira_resolved x)
        \<and> s_git_commits (activity_summary x) = length (p_git_commits x)
        \<and> s_emails_sent (activity_summary x) = length (p_emails_sent x)
        \<and> s_emails_received (activity_summary x) = length (p_emails_received x)
        \<and> total_activity_count (activity_summary x) =
            jira_tickets_assigned (activity_summary x) + jira_tickets_resolved (activity_summary x)
            + s_git_commits (activity_summary x) + s_emails_sent (activity_summary x)
            + s_emails_received (activity_summary x))
   \<and> (\<forall>n. filter (\<lambda>x. total_activity_count (activity_summary x) = n)
              (cluster_employee_data J G E) =
            filter (\<lambda>x. total_activity_count (activity_summary x) = n)
              (employee_clusters_unsorted J G E))
   \<and> map employee (employee_clusters_unsorted J G E) = employees_met J G E
   \<and> (\<forall>n. map employee (filter (\<lambda>x. total_activity_count (activity_summary x) = n)
                           (cluster_employee_data J G E)) =
            filter (\<lambda>name. activity J G E name = n) (employees_met J G E))"
proof -
  let ?u = "employee_clusters_unsorted J G E"
  let ?out = "cluster_employee_data J G E"
  have "sorted (map (\<lambda>x. - total_activity x) (sort_key (\<lambda>x. - total_activity x) ?u))"
    by (rule sorted_sort_key)
  then have 1: "sorted_wrt (\<lambda>x y. total_activity_count (activity_summary x)
                      \<ge> total_activity_count (activity_summary y)) ?out"
    unfolding cluster_employee_data_def py_sort_reverse_def sorted_map
    by (simp add: total_activity_def)
  have 2: "p_jira_assigned x = assigned_to (employee x) J
        \<and> p_jira_resolved x = resolved_by (employee x) J
        \<and> p_git_commits x = authored_by (employee x) G
        \<and> p_emails_sent x = sent_by (employee x) E
        \<and> p_emails_received x = received_by (employee x) E
        \<and> jira_tickets_assigned (activity_summary x) = length (p_jira_assigned x)
        \<and> jira_tickets_resolved (activity_summary x) = length (p_jira_resolved x)
        \<and> s_git_commits (activity_summary x) = length (p_git_commits x)
        \<and> s_emails_sent (activity_summary x) = length (p_emails_sent x)
        \<and> s_emails_received (activity_summary x) = length (p_emails_received x)
        \<and> total_activity_count (activity_summary x) =
            jira_tickets_assigned (activity_summary x) + jira_tickets_resolved (activity_summary x)
            + s_git_commits (activity_summary x) + s_emails_sent (activity_summary x)
            + s_emails_received (activity_summary x)" if "x \<in> set ?out" for x
  proof -
    from that have u: "x \<in> set ?u" by (simp only: set_cluster_employee_data)
    note L = cluster_employee_data_lists [OF u]
    show ?thesis
      using L(1-10) cluster_employee_dataD(2) [OF that] by blast
  qed
  have 3: "filter (\<lambda>x. total_activity_count (activity_summary x) = n) ?out =
           filter (\<lambda>x. total_activity_count (activity_summary x) = n) ?u" for n
  proof -
    have "filter (\<lambda>x. - total_activity x = - int n) (sort_key (\<lambda>x. - total_activity x) ?u) =
          filter (\<lambda>x. - total_activity x = - int n) ?u"
      by (rule sort_key_stable)
    then show ?thesis
      by (simp add: cluster_employee_data_def py_sort_reverse_def total_activity_def)
  qed
  have 4: "map employee ?u = employees_met J G E" by (rule names_unsorted)
  have 5: "map employee (filter (\<lambda>x. total_activity_count (activity_summary x) = n) ?out) =
           filter (\<lambda>name. activity J G E name = n) (employees_met J G E)" for n
    by (simp only: 3 names_of_total)
  show ?thesis using 1 2 3 4 5 by blast
qed

text \<open>
  C9.  In every cluster that \<open>cluster_task_data\<close> or \<open>cluster_employee_data\<close> returns,
  consecutive timeline events have non-decreasing timestamps, and the timeline holds the
  events attached to the cluster before the sort, those of equal timestamp in the order
  of their attachment.
\<close>

theorem timelines_chronological_and_stable:
  "(\<forall>r \<in> set (cluster_task_data J G E).
      chronological (r_timeline r)
      \<and> keeps_order_of_ties (r_timeline r)
            (timeline (tget (task_clusters_built J G E) (task_id r))))
   \<and> (\<forall>r \<in> set (cluster_employee_data J G E).
        chronological (p_timeline r)
        \<and> keeps_order_of_ties (p_timeline r)
              (e_timeline (eget (employee_clusters_built J G E) (employee r))))"
  by (simp add: cluster_task_dataD(5) cluster_employee_dataD(1) py_sort_chronological
      py_sort_keeps_order_of_ties)

section \<open>The collaboration graph\<close>

lemma weight_dd_get: "weight g a b = dd_get 0 (dd_get [] g a) b"
  by (simp add: weight_def dd_get_def split: option.splits)

lemma weight_bump:
  "weight (bump a b g) x y = weight g x y + (if x = a \<and> y = b then 1 else 0)"
  by (simp add: weight_dd_get bump_def dd_get_update)

lemma count_list_distinct: "distinct xs \<Longrightarrow> x \<in> set xs \<Longrightarrow> count_list xs x = 1"
  by (induction xs) auto

lemma weight_fold_pair:
  "weight (fold (\<lambda>y g. bump y x (bump x y g)) ys g) a b =
     weight g a b + (if a = x then count_list ys b else 0) + (if b = x then count_list ys a else 0)"
proof (induction ys arbitrary: g)
  case Nil
  then show ?case by simp
next
  case (Cons y ys)
  show ?case
    unfolding fold_Cons o_apply Cons.IH weight_bump
    by (cases "a = x"; cases "b = x"; cases "a = y"; cases "b = y") simp_all
qed

text \<open>
  Each unordered pair of distinct contributors of one ticket is linked once, in both
  directions, whatever the order in which the set of contributors is listed.
\<close>

lemma weight_link_pairs:
  assumes "distinct xs"
  shows "weight (link_pairs xs g) a b =
           weight g a b + (if a \<noteq> b \<and> a \<in> set xs \<and> b \<in> set xs then 1 else 0)"
  using assms
proof (induction xs arbitrary: g)
  case Nil
  then show ?case by simp
next
  case (Cons x xs)
  have d: "distinct xs" and nx: "x \<notin> set xs" using Cons.prems by simp_all
  have c: "count_list xs z = (if z \<in> set xs then 1 else 0)" for z
    using d by (simp add: count_list_distinct)
  show ?case
    unfolding link_pairs.simps Cons.IH [OF d] weight_fold_pair c
    using nx
    by (cases "a = x"; cases "b = x"; cases "a \<in> set xs"; cases "b \<in> set xs"; cases "a = b")
       simp_all
qed

lemma symmetric_bump2:
  assumes "symmetric g"
  shows "symmetric (bump b a (bump a b g))"
  unfolding symmetric_def
proof (intro allI)
  fix x y
  have e: "weight g x y = weight g y x" using assms unfolding symmetric_def by blast
  show "weight (bump b a (bump a b g)) x y = weight (bump b a (bump a b g)) y x"
    unfolding weight_bump e
    by (cases "x = a"; cases "y = b"; cases "x = b"; cases "y = a") simp_all
qed

lemma symmetric_link_recipient: "symmetric g \<Longrightarrow> symmetric (link_recipient s r g)"
  by (simp add: link_recipient_def symmetric_bump2)

lemma symmetric_fold_link_recipient:
  "symmetric g \<Longrightarrow> symmetric (fold (link_recipient s) rs g)"
  by (induction rs arbitrary: g) (simp_all add: symmetric_link_recipient)

lemma symmetric_link_email: "symmetric g \<Longrightarrow> symmetric (link_email e g)"
  by (simp add: link_email_def symmetric_fold_link_recipient)

lemma symmetric_fold_link_email: "symmetric g \<Longrightarrow> symmetric (fold link_email E g)"
  by (induction E arbitrary: g) (simp_all add: symmetric_link_email)

lemma symmetric_fold_pair:
  "symmetric g \<Longrightarrow> symmetric (fold (\<lambda>y g. bump y x (bump x y g)) ys g)"
  by (induction ys arbitrary: g) (simp_all add: symmetric_bump2)

lemma symmetric_link_pairs: "symmetric g \<Longrightarrow> symmetric (link_pairs xs g)"
  by (induction xs arbitrary: g) (simp_all add: symmetric_fold_pair)

lemma symmetric_link_contributors: "symmetric g \<Longrightarrow> symmetric (link_contributors tc g)"
  by (cases tc) (simp add: link_contributors_def symmetric_link_pairs)

lemma symmetric_fold_link_contributors:
  "symmetric g \<Longrightarrow> symmetric (fold link_contributors tcs g)"
  by (induction tcs arbitrary: g) (simp_all add: symmetric_link_contributors)

lemma symmetric_collaboration_graph: "symmetric (collaboration_graph G E)"
  unfolding collaboration_graph_def
  by (intro symmetric_fold_link_contributors symmetric_fold_link_email)
     (simp add: symmetric_def weight_def)


lemma dd_update_values:
  assumes "\<forall>v \<in> snd ` set d. P v" and "P dflt" and "\<And>v. P v \<Longrightarrow> P (f v)"
  shows "\<forall>v \<in> snd ` set (dd_update k dflt f d). P v"
  using assms(1)
proof (induction d)
  case Nil
  then show ?case using assms(2,3) by simp
next
  case (Cons p d)
  obtain k' v where p: "p = (k', v)" by (cases p)
  show ?case
    using Cons assms(3) by (cases "k = k'") (simp_all add: p)
qed

lemma wf_bump:
  assumes "wf_graph g"
  shows "wf_graph (bump a b g)"
proof -
  have "\<forall>row \<in> snd ` set (dd_update a [] (dd_update b 0 Suc) g). distinct (map fst row)"
  proof (rule dd_update_values)
    show "\<forall>row \<in> snd ` set g. distinct (map fst row)" using assms by (simp add: wf_graph_def)
    show "distinct (map fst ([] :: (string \<times> nat) list))" by simp
    show "\<And>row :: (string \<times> nat) list. distinct (map fst row) \<Longrightarrow> distinct (map fst (dd_update b 0 Suc row))"
      by (rule distinct_dd_update)
  qed
  moreover have "distinct (map fst (dd_update a [] (dd_update b 0 Suc) g))"
    using assms by (simp add: wf_graph_def distinct_dd_update)
  ultimately show ?thesis by (simp add: wf_graph_def bump_def)
qed

lemma wf_link_recipient: "wf_graph g \<Longrightarrow> wf_graph (link_recipient s r g)"
  by (simp add: link_recipient_def wf_bump)

lemma wf_fold_link_recipient: "wf_graph g \<Longrightarrow> wf_graph (fold (link_recipient s) rs g)"
  by (induction rs arbitrary: g) (simp_all add: wf_link_recipient)

lemma wf_fold_link_email: "wf_graph g \<Longrightarrow> wf_graph (fold link_email E g)"
  by (induction E arbitrary: g) (simp_all add: link_email_def wf_fold_link_recipient)

lemma wf_fold_pair: "wf_graph g \<Longrightarrow> wf_graph (fold (\<lambda>y g. bump y x (bump x y g)) ys g)"
  by (induction ys arbitrary: g) (simp_all add: wf_bump)

lemma wf_link_pairs: "wf_graph g \<Longrightarrow> wf_graph (link_pairs xs g)"
  by (induction xs arbitrary: g) (simp_all add: wf_fold_pair)

lemma wf_fold_link_contributors: "wf_graph g \<Longrightarrow> wf_graph (fold link_contributors tcs g)"
proof (induction tcs arbitrary: g)
  case Nil
  then show ?case by simp
next
  case (Cons tc tcs)
  then show ?case by (cases tc) (simp add: link_contributors_def wf_link_pairs)
qed

lemma wf_collaboration_graph: "wf_graph (collaboration_graph G E)"
  unfolding collaboration_graph_def
  by (intro wf_fold_link_contributors wf_fold_link_email) (simp add: wf_graph_def)

lemma distinct_map_sort_key: "distinct (map f xs) \<Longrightarrow> distinct (map f (sort_key h xs))"
  by (simp add: distinct_map)

lemma map_of_map_sort_key:
  assumes "distinct (map f xs)"
  shows "map_of (map (\<lambda>x. (f x, g x)) (sort_key h xs)) = map_of (map (\<lambda>x. (f x, g x)) xs)"
proof -
  have 1: "distinct (map fst (map (\<lambda>x. (f x, g x)) (sort_key h xs)))"
    using distinct_map_sort_key [OF assms, of h] by (simp add: o_def)
  have 2: "distinct (map fst (map (\<lambda>x. (f x, g x)) xs))"
    using assms by (simp add: o_def)
  have 3: "set (map (\<lambda>x. (f x, g x)) (sort_key h xs)) = set (map (\<lambda>x. (f x, g x)) xs)"
    by simp
  show ?thesis
    using 1 2 3 by (simp only: map_of_inject_set)
qed

lemma map_of_sort_key:
  assumes "distinct (map fst xs)"
  shows "map_of (sort_key f xs) = map_of xs"
  using map_of_map_sort_key [OF assms, of snd f] by simp

lemma map_n_employee_network_of: "map n_employee (map network_of g) = map fst g"
  by (induction g) (auto simp: network_of_def)

lemma map_of_network_rows:
  "map_of (map (\<lambda>n. (n_employee n, collaborators n)) (map network_of g)) a =
     map_option (py_sort_reverse (\<lambda>x. int (snd x))) (map_of g a)"
  by (induction g) (auto simp: network_of_def)

lemma strength_networks:
  "strength (identify_collaboration_networks cs J G E) a b = weight (collaboration_graph G E) a b"
proof -
  let ?g = "collaboration_graph G E"
  have wf: "wf_graph ?g" by (rule wf_collaboration_graph)
  have dn: "distinct (map n_employee (map network_of ?g))"
    unfolding map_n_employee_network_of using wf by (simp add: wf_graph_def)
  have "map_of (map (\<lambda>n. (n_employee n, collaborators n))
                    (identify_collaboration_networks cs J G E)) =
        map_of (map (\<lambda>n. (n_employee n, collaborators n)) (map network_of ?g))"
    unfolding identify_collaboration_networks_def py_sort_reverse_def
    by (rule map_of_map_sort_key [OF dn])
  then have lookup: "map_of (map (\<lambda>n. (n_employee n, collaborators n))
                    (identify_collaboration_networks cs J G E)) a =
      map_option (py_sort_reverse (\<lambda>x. int (snd x))) (map_of ?g a)"
    by (simp only: map_of_network_rows)
  show ?thesis
  proof (cases "map_of ?g a")
    case None
    then show ?thesis by (simp add: strength_def lookup weight_def)
  next
    case (Some row)
    then have "(a, row) \<in> set ?g" by (rule map_of_SomeD)
    then have "row \<in> snd ` set ?g" by force
    then have "distinct (map fst row)" using wf unfolding wf_graph_def by blast
    then have "map_of (py_sort_reverse (\<lambda>x. int (snd x)) row) = map_of row"
      unfolding py_sort_reverse_def by (rule map_of_sort_key)
    then show ?thesis by (simp add: strength_def lookup weight_def Some)
  qed
qed

text \<open>
  C8.  The collaboration graph is symmetric: for all persons \<open>a\<close> and \<open>b\<close> the weight of
  the edge from \<open>a\<close> to \<open>b\<close> equals the weight of the edge from \<open>b\<close> to \<open>a\<close>, in the
  graph that is built and in the strengths that the returned list records.
\<close>

theorem collaboration_graph_symmetric:
  "weight (collaboration_graph G E) a b = weight (collaboration_graph G E) b a
   \<and> strength (identify_collaboration_networks cs J G E) a b =
       strength (identify_collaboration_networks cs J G E) b a"
  using symmetric_collaboration_graph [of G E]
  by (simp add: strength_networks symmetric_def)

section \<open>Skill extraction\<close>

lemma contains_iff: "contains t s \<longleftrightarrow> (\<exists>ps ss. s = ps @ t @ ss)"
proof (induction s)
  case Nil
  then show ?case by auto
next
  case (Cons c cs)
  have "take (length t) (c # cs) = t \<longleftrightarrow> (\<exists>ss. c # cs = t @ ss)"
    by (metis append_eq_conv_conj append_take_drop_id)
  moreover have "(\<exists>ps ss. c # cs = ps @ t @ ss) \<longleftrightarrow>
                 (\<exists>ss. c # cs = t @ ss) \<or> (\<exists>ps ss. cs = ps @ t @ ss)"
  proof
    assume "\<exists>ps ss. c # cs = ps @ t @ ss"
    then obtain ps ss where e: "c # cs = ps @ t @ ss" by blast
    show "(\<exists>ss. c # cs = t @ ss) \<or> (\<exists>ps ss. cs = ps @ t @ ss)"
    proof (cases ps)
      case Nil
      then show ?thesis using e by auto
    next
      case (Cons p ps')
      then have "cs = ps' @ t @ ss" using e by simp
      then show ?thesis by blast
    qed
  next
    assume "(\<exists>ss. c # cs = t @ ss) \<or> (\<exists>ps ss. cs = ps @ t @ ss)"
    then show "\<exists>ps ss. c # cs = ps @ t @ ss"
    proof
      assume "\<exists>ss. c # cs = t @ ss"
      then obtain ss where "c # cs = [] @ t @ ss" by auto
      then show ?thesis by blast
    next
      assume "\<exists>ps ss. cs = ps @ t @ ss"
      then obtain ps ss where "c # cs = (c # ps) @ t @ ss" by auto
      then show ?thesis by blast
    qed
  qed
  ultimately show ?case using Cons.IH by simp
qed

lemma mentions_dd_get: "mentions sk t = dd_get 0 sk t"
  by (simp add: mentions_def dd_get_def)

lemma mentions_count_terms:
  "mentions (count_terms terms text sk) t =
     mentions sk t + (if contains t text then count_list terms t else 0)"
  unfolding count_terms_def
proof (induction terms arbitrary: sk)
  case Nil
  then show ?case by simp
next
  case (Cons u terms)
  show ?case
    by (simp add: Cons.IH) (simp add: mentions_dd_get dd_get_update)
qed

lemma distinct_count_terms:
  "distinct (map fst sk) \<Longrightarrow> distinct (map fst (count_terms terms text sk))"
  unfolding count_terms_def
  by (induction terms arbitrary: sk) (simp_all add: distinct_dd_update)

lemma mentions_skills_of_commit:
  "mentions (skills_of_commit c sk) t =
     mentions sk t +
     (if contains t (commit_message c) then count_list tech_terms t + count_list action_terms t else 0)"
  by (simp add: skills_of_commit_def mentions_count_terms)

lemma mentions_skills_of_ticket:
  "mentions (skills_of_ticket tk sk) t =
     mentions sk t + (if contains t (lower (tk_summary tk)) then count_list tech_terms t else 0)"
  by (simp add: skills_of_ticket_def mentions_count_terms)

lemma mentions_fold_commits:
  "mentions (fold skills_of_commit cs sk) t =
     mentions sk t +
     length (filter (\<lambda>c. contains t (commit_message c)) cs)
       * (count_list tech_terms t + count_list action_terms t)"
  by (induction cs arbitrary: sk) (simp_all add: mentions_skills_of_commit)

lemma mentions_fold_tickets:
  "mentions (fold skills_of_ticket ts sk) t =
     mentions sk t +
     length (filter (\<lambda>tk. contains t (lower (tk_summary tk))) ts) * count_list tech_terms t"
  by (induction ts arbitrary: sk) (simp_all add: mentions_skills_of_ticket)

lemma distinct_skill_counts: "distinct (map fst (skill_counts ed))"
proof -
  have c: "distinct (map fst sk) \<Longrightarrow> distinct (map fst (fold skills_of_commit cs sk))" for cs sk
    by (induction cs arbitrary: sk) (simp_all add: skills_of_commit_def distinct_count_terms)
  have t: "distinct (map fst sk) \<Longrightarrow> distinct (map fst (fold skills_of_ticket ts sk))" for ts sk
    by (induction ts arbitrary: sk) (simp_all add: skills_of_ticket_def distinct_count_terms)
  show ?thesis unfolding skill_counts_def by (intro t c) simp
qed

lemma mentions_skill_list: "mentions (skill_list ed) t = mentions (skill_counts ed) t"
  by (simp add: mentions_def skill_list_def py_sort_reverse_def
      map_of_sort_key [OF distinct_skill_counts])

lemma mentions_skill_counts:
  "mentions (skill_counts ed) t =
     length (filter (\<lambda>c. contains t (commit_message c)) (p_git_commits ed))
       * (count_list tech_terms t + count_list action_terms t)
     + length (filter (\<lambda>tk. contains t (lower (tk_summary tk)))
                (p_jira_assigned ed @ p_jira_resolved ed)) * count_list tech_terms t"
  unfolding skill_counts_def mentions_fold_tickets mentions_fold_commits
  by (simp add: mentions_def)

lemma vocabularies:
  "distinct tech_terms" "distinct action_terms"
  "list_all (\<lambda>t. t \<notin> set action_terms) tech_terms"
  by code_simp+

lemma tech_term_counts:
  assumes "t \<in> set tech_terms"
  shows "count_list tech_terms t = 1" and "count_list action_terms t = 0"
proof -
  show "count_list tech_terms t = 1"
    using vocabularies(1) assms by (rule count_list_distinct)
  have "t \<notin> set action_terms"
    using vocabularies(3) assms unfolding list_all_iff by blast
  then show "count_list action_terms t = 0" by simp
qed

lemma action_term_counts:
  assumes "t \<in> set action_terms"
  shows "count_list action_terms t = 1" and "count_list tech_terms t = 0"
proof -
  show "count_list action_terms t = 1"
    using vocabularies(2) assms by (rule count_list_distinct)
  have "t \<notin> set tech_terms"
    using vocabularies(3) assms unfolding list_all_iff by blast
  then show "count_list tech_terms t = 0" by simp
qed

lemma extract_skills_lookup:
  "map_of (fold (\<lambda>employee_data employee_skills.
             dd_update (employee employee_data) [] (\<lambda>_. skill_list employee_data) employee_skills)
       cs acc) n =
     (if filter (\<lambda>x. employee x = n) cs = [] then map_of acc n
      else Some (skill_list (last (filter (\<lambda>x. employee x = n) cs))))"
  by (induction cs arbitrary: acc) (simp_all add: map_of_dd_update)

text \<open>
  C2, as amended.  For a cluster of a sequence with pairwise distinct employee names,
  the list stored under its employee gives, for each technology term, the number of the
  cluster's commit messages plus the number of its ticket summaries (assigned, then
  resolved) that contain the term as a substring after lower-casing: a text counts once
  for a term, however often the term occurs in it.  For each action term the count is at
  least the number of commit messages that contain it.
\<close>

theorem skill_mentions_count_texts:
  assumes "ed \<in> set cs" and "distinct (map employee cs)"
  shows "map_of (extract_skills_from_activity cs) (employee ed) = Some (skill_list ed)
    \<and> (t \<in> set tech_terms \<longrightarrow>
         mentions (skill_list ed) t =
           length (filter (\<lambda>c. contains t (commit_message c)) (p_git_commits ed))
           + length (filter (\<lambda>tk. contains t (lower (tk_summary tk)))
                      (p_jira_assigned ed @ p_jira_resolved ed)))
    \<and> (t \<in> set action_terms \<longrightarrow>
         mentions (skill_list ed) t \<ge>
           length (filter (\<lambda>c. contains t (commit_message c)) (p_git_commits ed)))"
proof (intro conjI impI)
  have "filter (\<lambda>x. employee x = employee ed) cs = [ed]"
    using assms
    by (intro filter_unique_key [where f = employee]) auto
  then show "map_of (extract_skills_from_activity cs) (employee ed) = Some (skill_list ed)"
    by (simp add: extract_skills_from_activity_def extract_skills_lookup)
next
  assume "t \<in> set tech_terms"
  then show "mentions (skill_list ed) t =
           length (filter (\<lambda>c. contains t (commit_message c)) (p_git_commits ed))
           + length (filter (\<lambda>tk. contains t (lower (tk_summary tk)))
                      (p_jira_assigned ed @ p_jira_resolved ed))"
    by (simp add: mentions_skill_list mentions_skill_counts tech_term_counts)
next
  assume "t \<in> set action_terms"
  then show "mentions (skill_list ed) t \<ge>
           length (filter (\<lambda>c. contains t (commit_message c)) (p_git_commits ed))"
    by (simp add: mentions_skill_list mentions_skill_counts action_term_counts)
qed

subsection \<open>The employee side on the example data\<close>

lemma ex_employees_names: "map employee ex_employees = [''alice'', ''bob'', ''carol'']"
  unfolding ex_employees_def by code_simp

lemma ex_employees_totals:
  "map (\<lambda>x. total_activity_count (activity_summary x)) ex_employees = [4, 4, 2]"
  unfolding ex_employees_def by code_simp

lemma ex_unsorted_names:
  "map employee (employee_clusters_unsorted ex_jira ex_git ex_emails) = [''alice'', ''bob'', ''carol'']"
  by code_simp

lemma ex_employees_hd_in: "hd ex_employees \<in> set ex_employees"
proof -
  have "map employee ex_employees \<noteq> []" unfolding ex_employees_names by simp
  then show ?thesis by simp
qed

lemma ex_ranking_eval:
  "map (\<lambda>x. (employee x, total_activity_count (activity_summary x))) ex_ranking =
     [(''alice'', 2), (''bob'', 2), (''carol'', 1)]"
  "employees_met [] ex_git_unordered ex_emails_bob = [''carol'', ''alice'', ''bob'']"
  "map (activity [] ex_git_unordered ex_emails_bob) [''carol'', ''alice'', ''bob''] = [1, 2, 2]"
  "total_activity_count (activity_summary (hd ex_ranking)) = 2"
  "length (authored_by ''alice'' ex_git_unordered) = 2"
  "employee (hd ex_ranking) = ''alice''"
  unfolding ex_ranking_def by code_simp+

lemma ex_ranking_hd_in: "hd ex_ranking \<in> set ex_ranking"
proof -
  have "map (\<lambda>x. (employee x, total_activity_count (activity_summary x))) ex_ranking \<noteq> []"
    unfolding ex_ranking_eval by simp
  then show ?thesis by simp
qed

theorem employee_clusters_sorted_by_activity_witness:
  "sorted_wrt (\<lambda>x y. total_activity_count (activity_summary x)
                      \<ge> total_activity_count (activity_summary y)) ex_ranking
   \<and> map employee (employee_clusters_unsorted [] ex_git_unordered ex_emails_bob) =
       [''carol'', ''alice'', ''bob'']
   \<and> map employee (filter (\<lambda>x. total_activity_count (activity_summary x) = 2) ex_ranking) =
       [''alice'', ''bob'']
   \<and> map employee (filter (\<lambda>x. total_activity_count (activity_summary x) = 1) ex_ranking) =
       [''carol'']
   \<and> s_git_commits (activity_summary (hd ex_ranking)) = 2
   \<and> map (\<lambda>x. (employee x, total_activity_count (activity_summary x))) ex_ranking =
       [(''alice'', 2), (''bob'', 2), (''carol'', 1)]"
proof -
  note T = employee_clusters_sorted_by_activity [of "[]" ex_git_unordered ex_emails_bob, folded ex_ranking_def]
  have a: "activity [] ex_git_unordered ex_emails_bob ''carol'' = 1"
    "activity [] ex_git_unordered ex_emails_bob ''alice'' = 2"
    "activity [] ex_git_unordered ex_emails_bob ''bob'' = 2"
    using ex_ranking_eval(3) by simp_all
  from T have 1: "sorted_wrt (\<lambda>x y. total_activity_count (activity_summary x)
                      \<ge> total_activity_count (activity_summary y)) ex_ranking" by blast
  from T have 2: "map employee (employee_clusters_unsorted [] ex_git_unordered ex_emails_bob) =
       [''carol'', ''alice'', ''bob'']" by (simp only: ex_ranking_eval(2))
  from T have f: "map employee (filter (\<lambda>x. total_activity_count (activity_summary x) = n) ex_ranking) =
       filter (\<lambda>name. activity [] ex_git_unordered ex_emails_bob name = n)
         (employees_met [] ex_git_unordered ex_emails_bob)" for n by blast
  have 3: "map employee (filter (\<lambda>x. total_activity_count (activity_summary x) = 2) ex_ranking) =
       [''alice'', ''bob'']"
    unfolding f ex_ranking_eval(2) by (simp add: a)
  have 4: "map employee (filter (\<lambda>x. total_activity_count (activity_summary x) = 1) ex_ranking) =
       [''carol'']"
    unfolding f ex_ranking_eval(2) by (simp add: a)
  from T ex_ranking_hd_in
  have "s_git_commits (activity_summary (hd ex_ranking)) = length (p_git_commits (hd ex_ranking))"
    and "p_git_commits (hd ex_ranking) = authored_by (employee (hd ex_ranking)) ex_git_unordered"
    by blast+
  then have 5: "s_git_commits (activity_summary (hd ex_ranking)) = 2"
    by (simp add: ex_ranking_eval(5,6))
  show ?thesis using 1 2 3 4 5 ex_ranking_eval(1) by blast
qed

theorem timelines_chronological_and_stable_witness:
  "chronological (r_timeline (last ex_out))
   \<and> keeps_order_of_ties (r_timeline (last ex_out))
         (timeline (tget (task_clusters_built ex_jira ex_git ex_emails) ''PROJ-12''))
   \<and> chronological (p_timeline (hd ex_employees))
   \<and> keeps_order_of_ties (p_timeline (hd ex_employees))
         (e_timeline (eget (employee_clusters_built ex_jira ex_git ex_emails) ''alice''))"
proof -
  have a: "employee (hd ex_employees) = ''alice''"
    unfolding ex_employees_def by code_simp
  show ?thesis
    using timelines_chronological_and_stable [of ex_jira ex_git ex_emails] ex_out_1_in ex_employees_hd_in ex_out_1 a
    unfolding ex_employees_def [symmetric] ex_out_def [symmetric]
    by fastforce
qed

lemma ex_graph_eval:
  "strength (identify_collaboration_networks ex_employees ex_jira ex_git ex_emails) ''alice'' ''bob'' = 1"
  "weight (collaboration_graph ex_git ex_emails) ''carol'' ''alice'' = 1"
  by code_simp+

theorem collaboration_graph_symmetric_witness:
  "weight (collaboration_graph ex_git ex_emails) ''alice'' ''carol'' = 1
   \<and> strength (identify_collaboration_networks ex_employees ex_jira ex_git ex_emails)
         ''bob'' ''alice'' = 1"
  using collaboration_graph_symmetric [of ex_git ex_emails "''alice''" "''carol''" ex_employees ex_jira]
        collaboration_graph_symmetric [of ex_git ex_emails "''bob''" "''alice''" ex_employees ex_jira]
  by (simp add: ex_graph_eval)

lemma ex_skill_eval:
  "employee (hd ex_employees) = ''alice''"
  "length (filter (\<lambda>c. contains ''python'' (commit_message c)) (p_git_commits (hd ex_employees))) = 1"
  "length (filter (\<lambda>tk. contains ''python'' (lower (tk_summary tk)))
             (p_jira_assigned (hd ex_employees) @ p_jira_resolved (hd ex_employees))) = 0"
  "length (filter (\<lambda>c. contains ''fix'' (commit_message c)) (p_git_commits (hd ex_employees))) = 1"
  "''python'' \<in> set tech_terms" "''fix'' \<in> set action_terms"
  unfolding ex_employees_def by code_simp+

theorem skill_mentions_count_texts_witness:
  "map_of (extract_skills_from_activity ex_employees) ''alice'' = Some (skill_list (hd ex_employees))
   \<and> mentions (skill_list (hd ex_employees)) ''python'' = 1
   \<and> mentions (skill_list (hd ex_employees)) ''fix'' \<ge> 1"
proof -
  have d: "distinct (map employee ex_employees)" unfolding ex_employees_names by simp
  show ?thesis
    using skill_mentions_count_texts [OF ex_employees_hd_in d, of "''python''"] skill_mentions_count_texts [OF ex_employees_hd_in d, of "''fix''"]
    unfolding ex_skill_eval(1-4) by (simp add: ex_skill_eval(5,6))
qed

text \<open>
  C2 as stated fails: the commit message holds \<open>python\<close> twice and the count is 1, and
  the ticket summary holds the action term \<open>fix\<close>, which only the commit message counts.
\<close>

theorem repeated_term_counted_once:
  "map commit_message (p_git_commits (hd ex_employees)) = [''fix python, test python'', []]
   \<and> map (\<lambda>tk. lower (tk_summary tk))
         (p_jira_assigned (hd ex_employees) @ p_jira_resolved (hd ex_employees)) =
       [''fix the login api'']
   \<and> skill_list (hd ex_employees) = [(''python'', 1), (''fix'', 1), (''test'', 1), (''api'', 1)]"
  unfolding ex_employees_def by code_simp

section \<open>Role classification\<close>

lemma fold_categorize:
  "fold categorize cs (ds, ms, ks) =
     (ds @ map employee (filter (\<lambda>e. spec_developer (activity_summary e)) cs),
      ms @ map employee (filter (\<lambda>e. spec_manager (activity_summary e)) cs),
      ks @ map employee (filter (\<lambda>e. spec_communicator (activity_summary e)) cs))"
proof (induction cs arbitrary: ds ms ks)
  case Nil
  then show ?case by simp
next
  case (Cons e cs)
  have step: "fold categorize (e # cs) (ds, ms, ks) = fold categorize cs (categorize e (ds, ms, ks))"
    by simp
  show ?case
    unfolding step
    by (cases "s_git_commits (activity_summary e) >
                 s_emails_sent (activity_summary e) + s_emails_received (activity_summary e)";
        cases "s_emails_sent (activity_summary e) > s_git_commits (activity_summary e) * 2";
        cases "jira_tickets_assigned (activity_summary e) > 0 \<and> s_git_commits (activity_summary e) = 0")
       (auto simp add: categorize_def Let_def Cons.IH mult.commute spec_developer_def
          spec_communicator_def spec_manager_def)
qed

text \<open>
  C3.  Whatever the sequence of employee clusters, \<open>potential_developers\<close> lists (in input
  order) exactly the persons whose commit count exceeds their sent plus received email
  count, \<open>potential_communicators\<close> exactly those whose sent-email count exceeds twice
  their commit count, and \<open>potential_managers\<close> exactly the communicator candidates with at
  least one assigned ticket and no commit.  Each list is decided by its own condition on
  the person alone, so a person can be in none, one or several of them.
\<close>

theorem analyze_employee_clusters_roles:
  "potential_developers (analyze_employee_clusters cs) =
     map employee (filter (\<lambda>e. spec_developer (activity_summary e)) cs)
   \<and> potential_communicators (analyze_employee_clusters cs) =
     map employee (filter (\<lambda>e. spec_communicator (activity_summary e)) cs)
   \<and> potential_managers (analyze_employee_clusters cs) =
     map employee (filter (\<lambda>e. spec_manager (activity_summary e)) cs)"
  by (simp add: analyze_employee_clusters_def fold_categorize Let_def)

theorem analyze_employee_clusters_roles_witness:
  "potential_developers (analyze_employee_clusters example_team) = [''dana'']
   \<and> potential_communicators (analyze_employee_clusters example_team) = [''mia'', ''cy'']
   \<and> potential_managers (analyze_employee_clusters example_team) = [''mia'']"
  using analyze_employee_clusters_roles [of example_team]
  by (simp add: example_team_def example_member_def spec_developer_def spec_communicator_def
      spec_manager_def)

end
